theory Spec2Isabelle
  imports Main "HOL-Library.Multiset" "HOL-Library.Product_Lexorder"
begin

section \<open>Data model (types.ts)\<close>

text \<open>
  The interfaces of the source become records. A field that TypeScript marks optional
  (\<^verbatim>\<open>id?\<close>, \<^verbatim>\<open>strongs?\<close>, \<^verbatim>\<open>prayer?\<close>) is an \<open>option\<close>. Field names follow the
  source; \<^verbatim>\<open>id\<close>, \<^verbatim>\<open>term\<close>, \<^verbatim>\<open>context\<close> and \<^verbatim>\<open>name\<close> clash with Isabelle names and
  the fields \<^verbatim>\<open>reference\<close> and \<^verbatim>\<open>translation\<close> occur in two interfaces, so those carry a
  prefix or suffix.
\<close>

record StudyContext =
  author :: string
  audience :: string
  setting :: string
  purpose :: string

datatype Language = Greek | Hebrew | Aramaic

record LanguageInsight =
  term_ :: string
  language :: Language
  transliteration :: string
  strongs :: "string option"
  meaning :: string
  whyItMatters :: string

record CrossReference =
  xref_reference :: string
  connection :: string

record StudyAnalysis =
  analysis_reference :: string
  analysis_translation :: string
  scriptureText :: string
  summary :: string
  context_ :: StudyContext
  keyThemes :: "string list"
  languageInsights :: "LanguageInsight list"
  crossReferences :: "CrossReference list"
  keyLessons :: "string list"
  application :: "string list"
  prayer :: "string option"

record ModelMetadata =
  model_name :: string
  model_version :: string

text \<open>
  \<^verbatim>\<open>SavedStudy\<close>. The record is polymorphic in the type of \<^verbatim>\<open>createdAt\<close>: the
  application reads a number (milliseconds), while a document kept by the remote store
  holds what the store wrote there.
\<close>

record 't Study =
  study_id :: "string option"
  userId :: string
  reference :: string
  translation :: string
  createdAt :: 't
  modelMetadata :: ModelMetadata
  analysis :: StudyAnalysis
  userNotes :: string
  tags :: "string list"

type_synonym SavedStudy = "int Study"

text \<open>
  A \<^verbatim>\<open>createdAt\<close> held by the remote store: the server timestamp written by
  \<^verbatim>\<open>serverTimestamp()\<close> (seconds and nanoseconds), or a plain number when
  \<^verbatim>\<open>updateDoc\<close> was handed one.
\<close>

datatype stored_time = Num int | Stamp nat nat

type_synonym StoredDoc = "stored_time Study"

text \<open>\<^verbatim>\<open>Partial<SavedStudy>\<close>: every field may be absent.\<close>

record StudyPatch =
  patch_id :: "string option"
  patch_userId :: "string option"
  patch_reference :: "string option"
  patch_translation :: "string option"
  patch_createdAt :: "int option"
  patch_modelMetadata :: "ModelMetadata option"
  patch_analysis :: "StudyAnalysis option"
  patch_userNotes :: "string option"
  patch_tags :: "string list option"

text \<open>A profile document of the \<^verbatim>\<open>users\<close> collection, as far as the admin scan reads it.\<close>

record UserData =
  email :: "string option"
  displayName :: "string option"

section \<open>The environment: browser storage and the remote store\<close>

text \<open>
  Requests to the remote document store. The store may reject any of them (rules not
  deployed, permission denied, network): \<open>rejects\<close> says which. A rejected request is a
  rejected promise in the source, that is a thrown error at the \<^verbatim>\<open>await\<close>.
\<close>

datatype request =
    ListUsers
  | QueryHistory string
  | GetDoc string string
  | AddDoc string
  | UpdateDoc string string
  | DeleteDoc string string

datatype error = FirestoreError | GenerationError string | TransportError

text \<open>What \<^verbatim>\<open>generateContent\<close> answers: the promise rejects, or a response whose
  \<^verbatim>\<open>text\<close> may be undefined.\<close>

datatype ai_reply = Rejected | Reply "string option"

text \<open>
  The state every operation reads and writes. The three \<open>ss_\<close> fields are the keys of
  \<^verbatim>\<open>localStorage\<close> (\<open>None\<close>: the key is absent); the stored JSON text of
  \<^verbatim>\<open>ss_studies\<close> is kept as the list it encodes. \<open>configured\<close> is
  \<^verbatim>\<open>isFirebaseConfigured && db\<close>. \<open>users\<close> and \<open>history\<close> are the remote collections
  \<^verbatim>\<open>users\<close> and \<^verbatim>\<open>users/{uid}/history\<close>, each document with its id. \<open>gemini\<close> is the
  generation service (by reference and translation) and \<open>ai_calls\<close> logs the requests
  sent to it.
\<close>

record world =
  configured :: bool
  ss_studies :: "SavedStudy list option"
  ss_guest_trial_used :: "string option"
  ss_guest_trial_study_id :: "string option"
  users :: "(string \<times> UserData) list"
  history :: "string \<Rightarrow> (string \<times> StoredDoc) list"
  rejects :: "request \<Rightarrow> bool"
  gemini :: "string \<Rightarrow> string \<Rightarrow> ai_reply"
  ai_calls :: "(string \<times> string) list"

text \<open>\<^verbatim>\<open>JSON.parse(localStorage.getItem('ss_studies') || '[]')\<close>\<close>

definition localStudies :: "world \<Rightarrow> SavedStudy list" where
  "localStudies w = (case ss_studies w of None \<Rightarrow> [] | Some l \<Rightarrow> l)"

text \<open>\<^verbatim>\<open>s.startsWith(p)\<close>\<close>

definition startsWith :: "string \<Rightarrow> string \<Rightarrow> bool" where
  "startsWith s p = (take (length p) s = p)"

text \<open>The decimal digits of a number, as a template literal prints \<^verbatim>\<open>Date.now()\<close>.\<close>

function decimal :: "nat \<Rightarrow> string" where
  "decimal n =
     (if n < 10 then [''0123456789'' ! n]
      else decimal (n div 10) @ [''0123456789'' ! (n mod 10)])"
  by pat_completeness auto
termination
  by (relation "measure (\<lambda>n. n)") auto

declare decimal.simps [simp del]

text \<open>
  \<^verbatim>\<open>xs.sort((a, b) => key(b) - key(a))\<close>: the sort of the language is stable, so the
  result is in descending key order and equal keys keep their order.
\<close>

definition sortDesc :: "('a \<Rightarrow> int) \<Rightarrow> 'a list \<Rightarrow> 'a list" where
  "sortDesc key xs = sort_key (\<lambda>x. - key x) xs"

subsection \<open>The remote store\<close>

text \<open>
  \<^verbatim>\<open>orderBy('createdAt', 'desc')\<close>: the store orders values of different types by type
  (numbers below timestamps), timestamps by seconds then nanoseconds; descending reverses
  this. Documents with equal values keep the order of the collection here.
\<close>

fun desc_key :: "stored_time \<Rightarrow> int \<times> int \<times> int" where
  "desc_key (Stamp s n) = (0, - int s, - int n)"
| "desc_key (Num m) = (1, - m, 0)"

definition queryDesc :: "(string \<times> StoredDoc) list \<Rightarrow> (string \<times> StoredDoc) list" where
  "queryDesc docs = sort_key (\<lambda>d. desc_key (createdAt (snd d))) docs"

text \<open>
  A collection in which every document carries a server timestamp. Every document that
  \<open>save\<close> writes does; a plain number gets there only through an \<^verbatim>\<open>updateDoc\<close> that
  sets \<^verbatim>\<open>createdAt\<close>, which the application never sends (it updates the notes only).
\<close>

definition serverStamped :: "(string \<times> StoredDoc) list \<Rightarrow> bool" where
  "serverStamped docs =
     list_all (\<lambda>d. case createdAt (snd d) of Stamp s n \<Rightarrow> True | Num m \<Rightarrow> False) docs"

text \<open>\<^verbatim>\<open>deleteDoc\<close> and \<^verbatim>\<open>addDoc\<close> on a collection (a new document replaces one of the same id).\<close>

definition deleteFrom :: "string \<Rightarrow> (string \<times> 'd) list \<Rightarrow> (string \<times> 'd) list" where
  "deleteFrom k docs = filter (\<lambda>d. fst d \<noteq> k) docs"

definition addTo :: "string \<Rightarrow> 'd \<Rightarrow> (string \<times> 'd) list \<Rightarrow> (string \<times> 'd) list" where
  "addTo k v docs = deleteFrom k docs @ [(k, v)]"

definition setHistory :: "string \<Rightarrow> (string \<times> StoredDoc) list \<Rightarrow> world \<Rightarrow> world" where
  "setHistory uid docs w = w\<lparr>history := (history w)(uid := docs)\<rparr>"

text \<open>
  \<^verbatim>\<open>data.createdAt?.seconds ? data.createdAt.seconds * 1000 : data.createdAt\<close>. For a
  timestamp whose seconds are 0 the source hands back the timestamp object itself; the
  model has the number 0 there.
\<close>

fun createdAtMillis :: "stored_time \<Rightarrow> int" where
  "createdAtMillis (Stamp s n) = (if s \<noteq> 0 then int s * 1000 else 0)"
| "createdAtMillis (Num m) = m"

text \<open>\<^verbatim>\<open>{ id: doc.id, ...data, createdAt: ... }\<close>: an \<^verbatim>\<open>id\<close> inside the data wins over
  the document's id.\<close>

definition fromDoc :: "string \<times> StoredDoc \<Rightarrow> SavedStudy" where
  "fromDoc d =
     \<lparr>study_id = (case study_id (snd d) of None \<Rightarrow> Some (fst d) | Some i \<Rightarrow> Some i),
      userId = userId (snd d), reference = reference (snd d),
      translation = translation (snd d),
      createdAt = createdAtMillis (createdAt (snd d)),
      modelMetadata = modelMetadata (snd d), analysis = analysis (snd d),
      userNotes = userNotes (snd d), tags = tags (snd d)\<rparr>"

text \<open>\<^verbatim>\<open>{ ...study, createdAt: serverTimestamp() }\<close>\<close>

definition toDoc :: "SavedStudy \<Rightarrow> stored_time \<Rightarrow> StoredDoc" where
  "toDoc s t =
     \<lparr>study_id = study_id s, userId = userId s, reference = reference s,
      translation = translation s, createdAt = t,
      modelMetadata = modelMetadata s, analysis = analysis s,
      userNotes = userNotes s, tags = tags s\<rparr>"

text \<open>\<^verbatim>\<open>{ ...old, ...data }\<close> and the same merge done by \<^verbatim>\<open>updateDoc\<close>.\<close>

definition orElse :: "'a option \<Rightarrow> 'a \<Rightarrow> 'a" where
  "orElse p v = (case p of None \<Rightarrow> v | Some x \<Rightarrow> x)"

definition mergePatch :: "(int \<Rightarrow> 't) \<Rightarrow> 't Study \<Rightarrow> StudyPatch \<Rightarrow> 't Study" where
  "mergePatch num s p =
     \<lparr>study_id = (case patch_id p of None \<Rightarrow> study_id s | Some i \<Rightarrow> Some i),
      userId = orElse (patch_userId p) (userId s),
      reference = orElse (patch_reference p) (reference s),
      translation = orElse (patch_translation p) (translation s),
      createdAt = (case patch_createdAt p of None \<Rightarrow> createdAt s | Some m \<Rightarrow> num m),
      modelMetadata = orElse (patch_modelMetadata p) (modelMetadata s),
      analysis = orElse (patch_analysis p) (analysis s),
      userNotes = orElse (patch_userNotes p) (userNotes s),
      tags = orElse (patch_tags p) (tags s)\<rparr>"

section \<open>StudyService (App.tsx)\<close>

text \<open>\<^verbatim>\<open>isFirebaseConfigured && db && userId !== 'guest'\<close>\<close>

definition useRemote :: "world \<Rightarrow> string \<Rightarrow> bool" where
  "useRemote w uid = (configured w \<and> uid \<noteq> ''guest'')"

text \<open>\<^verbatim>\<open>isFirebaseConfigured && db && !id.startsWith('local-') && userId !== 'guest'\<close>\<close>

definition useRemoteFor :: "world \<Rightarrow> string \<Rightarrow> string \<Rightarrow> bool" where
  "useRemoteFor w uid i = (configured w \<and> \<not> startsWith i ''local-'' \<and> uid \<noteq> ''guest'')"

text \<open>
  \<open>save\<close>. Beside the source's arguments it takes what the environment supplies during
  the call: \<open>now\<close> is \<^verbatim>\<open>Date.now()\<close>, \<open>autoId\<close> the id the remote store gives the new
  document, \<open>stamp\<close> the server's timestamp. Every operation returns its result
  (\<open>Inl\<close>: the promise rejects) together with the state it leaves.
\<close>

definition save ::
  "string \<Rightarrow> SavedStudy \<Rightarrow> nat \<Rightarrow> string \<Rightarrow> stored_time \<Rightarrow> world \<Rightarrow> (error + string) \<times> world" where
  "save uid study now autoId stamp w =
     (if useRemote w uid then
        (if rejects w (AddDoc uid) then (Inl FirestoreError, w)
         else (Inr autoId, setHistory uid (addTo autoId (toDoc study stamp) (history w uid)) w))
      else
        (let i = ''local-'' @ decimal now;
             newStudy = study\<lparr>study_id := Some i\<rparr>
         in (Inr i, w\<lparr>ss_studies := Some (localStudies w @ [newStudy])\<rparr>)))"

definition getAll :: "string \<Rightarrow> world \<Rightarrow> SavedStudy list" where
  "getAll uid w =
     (if useRemote w uid \<and> \<not> rejects w (QueryHistory uid)
      then map fromDoc (queryDesc (history w uid))
      else localStudies w)"

definition getById :: "string \<Rightarrow> string \<Rightarrow> world \<Rightarrow> SavedStudy option" where
  "getById uid i w =
     (case (if useRemoteFor w uid i \<and> \<not> rejects w (GetDoc uid i)
            then find (\<lambda>d. fst d = i) (history w uid) else None) of
        Some d \<Rightarrow> Some (fromDoc d)
      | None \<Rightarrow> find (\<lambda>s. study_id s = Some i) (localStudies w))"

text \<open>\<^verbatim>\<open>localStudies[index] = { ...localStudies[index], ...data }\<close> at the first match.\<close>

fun replaceFirst :: "('a \<Rightarrow> bool) \<Rightarrow> ('a \<Rightarrow> 'a) \<Rightarrow> 'a list \<Rightarrow> 'a list option" where
  "replaceFirst P f [] = None"
| "replaceFirst P f (x # xs) =
     (if P x then Some (f x # xs)
      else (case replaceFirst P f xs of None \<Rightarrow> None | Some ys \<Rightarrow> Some (x # ys)))"

text \<open>\<^verbatim>\<open>updateDoc\<close> rejects when the document does not exist.\<close>

definition update :: "string \<Rightarrow> string \<Rightarrow> StudyPatch \<Rightarrow> world \<Rightarrow> (error + unit) \<times> world" where
  "update uid i data w =
     (if useRemoteFor w uid i then
        (if rejects w (UpdateDoc uid i) then (Inl FirestoreError, w)
         else (case replaceFirst (\<lambda>d. fst d = i) (\<lambda>d. (fst d, mergePatch Num (snd d) data))
                      (history w uid) of
                 None \<Rightarrow> (Inl FirestoreError, w)
               | Some docs \<Rightarrow> (Inr (), setHistory uid docs w)))
      else
        (case replaceFirst (\<lambda>s. study_id s = Some i) (\<lambda>s. mergePatch (\<lambda>m. m) s data)
                (localStudies w) of
           None \<Rightarrow> (Inr (), w)
         | Some l \<Rightarrow> (Inr (), w\<lparr>ss_studies := Some l\<rparr>)))"

definition remove :: "string \<Rightarrow> string \<Rightarrow> world \<Rightarrow> (error + unit) \<times> world" where
  "remove uid i w =
     (if useRemoteFor w uid i then
        (if rejects w (DeleteDoc uid i) then (Inl FirestoreError, w)
         else (Inr (), setHistory uid (deleteFrom i (history w uid)) w))
      else
        (let filtered = filter (\<lambda>s. study_id s \<noteq> Some i) (localStudies w)
         in (Inr (), w\<lparr>ss_studies := Some filtered\<rparr>)))"

text \<open>
  \<^verbatim>\<open>Promise.all(ids.map(id => deleteDoc(...)))\<close>: every request is sent; the ones the
  store accepts take effect, and the whole rejects if one of them was rejected.
\<close>

definition deleteAll :: "string \<Rightarrow> string list \<Rightarrow> world \<Rightarrow> (error + unit) \<times> world" where
  "deleteAll uid ids w =
     (let accepted = filter (\<lambda>i. \<not> rejects w (DeleteDoc uid i)) ids;
          w' = setHistory uid (fold deleteFrom accepted (history w uid)) w
      in (if list_all (\<lambda>i. \<not> rejects w (DeleteDoc uid i)) ids then Inr () else Inl FirestoreError,
          w'))"

definition clearAll :: "string \<Rightarrow> world \<Rightarrow> (error + unit) \<times> world" where
  "clearAll uid w =
     (if useRemote w uid then
        (if rejects w (QueryHistory uid) then (Inl FirestoreError, w)
         else deleteAll uid (map fst (history w uid)) w)
      else (Inr (), w\<lparr>ss_studies := Some []\<rparr>))"

text \<open>
  \<open>enforceLimit\<close>. The cap is a count, a natural number: the one call passes 10, and 10
  is the default of the parameter, which the model leaves to the caller.
\<close>

definition enforceLimit :: "string \<Rightarrow> nat \<Rightarrow> world \<Rightarrow> (error + unit) \<times> world" where
  "enforceLimit uid limit w =
     (if useRemote w uid then
        (if rejects w (QueryHistory uid) then (Inl FirestoreError, w)
         else (let docs = queryDesc (history w uid)
               in if length docs > limit
                  then deleteAll uid (map fst (drop limit docs)) w
                  else (Inr (), w)))
      else
        (let l = localStudies w
         in if length l > limit
            then (let sorted = sortDesc createdAt l
                  in (Inr (), w\<lparr>ss_studies := Some (take limit sorted)\<rparr>))
            else (Inr (), w)))"

section \<open>GuestTrialService (App.tsx)\<close>

definition hasUsedTrial :: "world \<Rightarrow> bool" where
  "hasUsedTrial w = (ss_guest_trial_used w = Some ''true'')"

definition markTrialUsed :: "world \<Rightarrow> world" where
  "markTrialUsed w = w\<lparr>ss_guest_trial_used := Some ''true''\<rparr>"

definition getTrialStudyId :: "world \<Rightarrow> string option" where
  "getTrialStudyId w = ss_guest_trial_study_id w"

definition setTrialStudyId :: "string \<Rightarrow> world \<Rightarrow> world" where
  "setTrialStudyId i w = w\<lparr>ss_guest_trial_study_id := Some i\<rparr>"

text \<open>The four operations of the tracker, and the state a call of one leaves.\<close>

datatype trackerOp = HasUsedTrial | MarkTrialUsed | GetTrialStudyId | SetTrialStudyId string

fun runTracker :: "trackerOp \<Rightarrow> world \<Rightarrow> world" where
  "runTracker HasUsedTrial w = w"
| "runTracker MarkTrialUsed w = markTrialUsed w"
| "runTracker GetTrialStudyId w = w"
| "runTracker (SetTrialStudyId i) w = setTrialStudyId i w"

section \<open>AdminService.getAllStudies (App.tsx)\<close>

record AdminEntry =
  study :: SavedStudy
  userEmail :: string
  userName :: string

text \<open>\<^verbatim>\<open>value || fallback\<close> on a string that may be missing: the empty string is falsy too.\<close>

definition orDefault :: "string option \<Rightarrow> string \<Rightarrow> string" where
  "orDefault v d = (case v of None \<Rightarrow> d | Some s \<Rightarrow> if s = [] then d else s)"

definition userEntries :: "world \<Rightarrow> string \<times> UserData \<Rightarrow> AdminEntry list" where
  "userEntries w u =
     map (\<lambda>d. \<lparr>study = (fromDoc d)\<lparr>userId := fst u\<rparr>,
               userEmail = orDefault (email (snd u)) ''Unknown'',
               userName = orDefault (displayName (snd u)) ''Anonymous''\<rparr>)
         (queryDesc (history w (fst u)))"

text \<open>The \<^verbatim>\<open>for\<close> loop over the user documents; a rejected sub-query throws out of it.\<close>

fun scanUsers ::
  "world \<Rightarrow> (string \<times> UserData) list \<Rightarrow> AdminEntry list \<Rightarrow> error + AdminEntry list" where
  "scanUsers w [] allStudies = Inr allStudies"
| "scanUsers w (u # us) allStudies =
     (if rejects w (QueryHistory (fst u)) then Inl FirestoreError
      else scanUsers w us (allStudies @ userEntries w u))"

text \<open>The body of the \<^verbatim>\<open>try\<close> block, and the function with its \<^verbatim>\<open>catch\<close>.\<close>

definition scanAll :: "world \<Rightarrow> error + AdminEntry list" where
  "scanAll w =
     (if rejects w ListUsers then Inl FirestoreError
      else (case scanUsers w (users w) [] of
              Inl e \<Rightarrow> Inl e
            | Inr allStudies \<Rightarrow> Inr (sortDesc (\<lambda>e. createdAt (study e)) allStudies)))"

definition getAllStudies :: "world \<Rightarrow> AdminEntry list" where
  "getAllStudies w =
     (if \<not> configured w then []
      else (case scanAll w of Inl e \<Rightarrow> [] | Inr allStudies \<Rightarrow> allStudies))"

section \<open>The AI client (gemini.ts)\<close>

text \<open>
  \<^verbatim>\<open>text.replace(/<fence>\n?/g, '')\<close> for a literal fence: every occurrence, found from
  left to right, is deleted together with one newline that follows it.
\<close>

definition newline :: char where
  "newline = CHR 0x0A"

definition dropNewline :: "string \<Rightarrow> string" where
  "dropNewline s = (case s of [] \<Rightarrow> [] | c # cs \<Rightarrow> if c = newline then cs else c # cs)"

function stripFence :: "string \<Rightarrow> string \<Rightarrow> string" where
  "stripFence p [] = []"
| "stripFence p (c # cs) =
     (if p \<noteq> [] \<and> startsWith (c # cs) p
      then stripFence p (dropNewline (drop (length p) (c # cs)))
      else c # stripFence p cs)"
  by pat_completeness auto
termination
proof (relation "measure (\<lambda>(p, s). length s)", goal_cases)
  case 1
  show ?case by simp
next
  case (2 p c cs)
  have "length (dropNewline s) \<le> length s" for s
    by (simp add: dropNewline_def split: list.splits)
  then have "length (dropNewline (drop (length p) (c # cs))) \<le> length (drop (length p) (c # cs))" .
  moreover have "length (drop (length p) (c # cs)) < length (c # cs)"
    using 2 by (cases p) auto
  ultimately show ?case by simp
next
  case (3 p c cs)
  show ?case by simp
qed

text \<open>
  \<^verbatim>\<open>s.trim()\<close>. A character of the model is a code unit below 256; among those the
  white space and line terminators that \<^verbatim>\<open>trim\<close> strips are tab, line feed, vertical
  tab, form feed, carriage return, space and the no-break space U+00A0.
\<close>

definition isSpace :: "char \<Rightarrow> bool" where
  "isSpace c =
     (c \<in> set [CHR 0x09, CHR 0x0A, CHR 0x0B, CHR 0x0C, CHR 0x0D, CHR 0x20, CHR 0xA0])"

definition trim :: "string \<Rightarrow> string" where
  "trim s = rev (dropWhile isSpace (rev (dropWhile isSpace s)))"

definition fenceJson :: string where
  "fenceJson = [CHR 0x60, CHR 0x60, CHR 0x60] @ ''json''"

definition fence :: string where
  "fence = [CHR 0x60, CHR 0x60, CHR 0x60]"

definition cleanText :: "string \<Rightarrow> string" where
  "cleanText text = trim (stripFence fence (stripFence fenceJson text))"

text \<open>
  The \<^verbatim>\<open>try\<close> block of \<open>generateStudy\<close>. \<open>parse\<close> stands for
  \<^verbatim>\<open>JSON.parse(...) as StudyAnalysis\<close>: \<open>None\<close> when \<^verbatim>\<open>JSON.parse\<close> throws.
\<close>

definition parseReply :: "(string \<Rightarrow> StudyAnalysis option) \<Rightarrow> string option \<Rightarrow> error + StudyAnalysis" where
  "parseReply parse responseText =
     (let text = orDefault responseText ''{}'';
          cleanedText = cleanText text
      in case parse cleanedText of
           None \<Rightarrow> Inl (GenerationError ''Could not parse study analysis. Please try again.'')
         | Some a \<Rightarrow> Inr a)"

text \<open>
  \<open>generateStudy\<close>: the request to the service (its prompt is fixed by the reference and
  the translation), then the \<^verbatim>\<open>try\<close> block. The request stands outside the \<^verbatim>\<open>try\<close>
  block, so its rejection is thrown as it is. The default \<^verbatim>\<open>"KJV"\<close> of the translation is
  left to the caller.
\<close>

definition generateStudy ::
  "(string \<Rightarrow> StudyAnalysis option) \<Rightarrow> string \<Rightarrow> string \<Rightarrow> world \<Rightarrow> (error + StudyAnalysis) \<times> world" where
  "generateStudy parse ref tr w =
     (let w' = w\<lparr>ai_calls := ai_calls w @ [(ref, tr)]\<rparr>
      in case gemini w ref tr of
           Rejected \<Rightarrow> (Inl TransportError, w')
         | Reply t \<Rightarrow> (parseReply parse t, w'))"

text \<open>A reply that wraps the text \<open>x\<close> in a fenced block tagged \<^verbatim>\<open>json\<close>.\<close>

definition fenced :: "string \<Rightarrow> string" where
  "fenced x = fenceJson @ [newline] @ x @ [newline] @ fence"

section \<open>handleAnalyze (App.tsx, Landing)\<close>

datatype outcome = Ignored | SignInModal | Navigated string | Failed

text \<open>
  \<open>user\<close> is the signed-in user's uid, \<open>None\<close> when nobody is signed in. \<open>created\<close> is
  the \<^verbatim>\<open>Date.now()\<close> of the study record; \<open>now\<close>, \<open>autoId\<close> and \<open>stamp\<close> go to \<open>save\<close>.
\<close>

definition handleAnalyze ::
  "(string \<Rightarrow> StudyAnalysis option) \<Rightarrow> string option \<Rightarrow> string \<Rightarrow> string \<Rightarrow>
   nat \<Rightarrow> nat \<Rightarrow> string \<Rightarrow> stored_time \<Rightarrow> world \<Rightarrow> outcome \<times> world" where
  "handleAnalyze parse user ref tr created now autoId stamp w =
     (if trim ref = [] then (Ignored, w)
      else if user = None \<and> hasUsedTrial w then (SignInModal, w)
      else (case generateStudy parse ref tr w of
              (Inl e, w1) \<Rightarrow> (Failed, w1)
            | (Inr an, w1) \<Rightarrow>
                (let uid = orDefault user ''guest'';
                     studyData =
                       \<lparr>study_id = None, userId = uid, reference = analysis_reference an,
                        translation = analysis_translation an, createdAt = int created,
                        modelMetadata = \<lparr>model_name = ''Gemini'', model_version = ''2.0 Flash''\<rparr>,
                        analysis = an, userNotes = [], tags = []\<rparr>
                 in case save uid studyData now autoId stamp w1 of
                      (Inl e, w2) \<Rightarrow> (Failed, w2)
                    | (Inr i, w2) \<Rightarrow>
                        (let w3 = (if user = None
                                   then setTrialStudyId i (markTrialUsed w2) else w2)
                         in if user \<noteq> None
                            then (case enforceLimit uid 10 w3 of
                                    (Inl e, w4) \<Rightarrow> (Failed, w4)
                                  | (Inr u, w4) \<Rightarrow> (Navigated i, w4))
                            else (Navigated i, w3)))))"

section \<open>Example states\<close>

text \<open>Concrete studies and states, used to run the operations on.\<close>

definition sampleAnalysis :: StudyAnalysis where
  "sampleAnalysis =
     \<lparr>analysis_reference = ''John 3:16'', analysis_translation = ''ESV'',
      scriptureText = [], summary = ''God so loved the world'',
      context_ = \<lparr>author = ''John'', audience = [], setting = [], purpose = []\<rparr>,
      keyThemes = [''love''], languageInsights = [], crossReferences = [],
      keyLessons = [], application = [], prayer = None\<rparr>"

definition sampleStudy :: "string option \<Rightarrow> int \<Rightarrow> SavedStudy" where
  "sampleStudy i t =
     \<lparr>study_id = i, userId = ''guest'', reference = ''John 3:16'', translation = ''ESV'',
      createdAt = t,
      modelMetadata = \<lparr>model_name = ''Gemini'', model_version = ''2.0 Flash''\<rparr>,
      analysis = sampleAnalysis, userNotes = [], tags = []\<rparr>"

definition offline :: world where
  "offline =
     \<lparr>configured = False, ss_studies = None, ss_guest_trial_used = None,
      ss_guest_trial_study_id = None, users = [], history = (\<lambda>u. []),
      rejects = (\<lambda>r. False), gemini = (\<lambda>r t. Reply (Some ''{}'')), ai_calls = []\<rparr>"

definition online :: world where
  "online = offline\<lparr>configured := True\<rparr>"

definition oneLocal :: world where
  "oneLocal = offline\<lparr>ss_studies := Some [sampleStudy (Some ''local-1'') 1]\<rparr>"

definition tickLocal :: world where
  "tickLocal = offline\<lparr>ss_studies := Some [sampleStudy (Some ''local-7'') 10]\<rparr>"

definition strayLocal :: world where
  "strayLocal = online\<lparr>ss_studies := Some [sampleStudy (Some ''Ab3dE'') 1]\<rparr>"

definition threeLocal :: world where
  "threeLocal = offline\<lparr>ss_studies := Some
     [sampleStudy (Some ''local-1'') 10, sampleStudy (Some ''local-3'') 30,
      sampleStudy (Some ''local-2'') 20]\<rparr>"

definition threeRemote :: world where
  "threeRemote = online\<lparr>history := (\<lambda>u. if u = ''u1'' then
     [(''docA'', toDoc (sampleStudy None 10) (Stamp 10 0)),
      (''docC'', toDoc (sampleStudy None 30) (Stamp 30 0)),
      (''docB'', toDoc (sampleStudy None 20) (Stamp 20 0))] else [])\<rparr>"

definition busyBrowser :: world where
  "busyBrowser = threeRemote
     \<lparr>ss_studies := Some
        [sampleStudy (Some ''local-1'') 10, sampleStudy (Some ''local-3'') 30,
         (sampleStudy (Some ''local-2'') 20)\<lparr>userNotes := ''read again''\<rparr>],
      ss_guest_trial_used := Some ''true'',
      ss_guest_trial_study_id := Some ''local-1''\<rparr>"

definition twoUsers :: world where
  "twoUsers = online
     \<lparr>users := [(''u1'', \<lparr>email = Some ''a@example.org'', displayName = None\<rparr>),
                (''u2'', \<lparr>email = None, displayName = Some ''Bea''\<rparr>)],
      history := (\<lambda>u. if u = ''u2'' then [(''Ab3dE'', toDoc (sampleStudy None 5) (Stamp 1700000000 0))] else [])\<rparr>"

definition notesPatch :: "string \<Rightarrow> StudyPatch" where
  "notesPatch n =
     \<lparr>patch_id = None, patch_userId = None, patch_reference = None, patch_translation = None,
      patch_createdAt = None, patch_modelMetadata = None, patch_analysis = None,
      patch_userNotes = Some n, patch_tags = None\<rparr>"

definition exampleParse :: "string \<Rightarrow> StudyAnalysis option" where
  "exampleParse s = (if s = ''{}'' then Some sampleAnalysis else None)"

definition declining :: world where
  "declining = offline\<lparr>gemini := (\<lambda>r t. Reply (Some ''I cannot help''))\<rparr>"

section \<open>Auxiliary lemmas\<close>

lemma fold_deleteFrom: "fold deleteFrom ks h = filter (\<lambda>d. fst d \<notin> set ks) h"
proof (induction ks arbitrary: h)
  case Nil
  show ?case by simp
next
  case (Cons k ks)
  have "fold deleteFrom (k # ks) h = fold deleteFrom ks (deleteFrom k h)" by simp
  also have "\<dots> = filter (\<lambda>d. fst d \<notin> set ks) (deleteFrom k h)" by (rule Cons.IH)
  also have "\<dots> = filter (\<lambda>d. fst d \<notin> set (k # ks)) h"
    unfolding deleteFrom_def filter_filter by (rule filter_cong) auto
  finally show ?case .
qed

lemma queryDesc_filter: "queryDesc (filter P h) = filter P (queryDesc h)"
  by (simp add: queryDesc_def filter_sort)

lemma length_queryDesc: "length (queryDesc h) = length h"
  by (simp add: queryDesc_def)

lemma distinct_queryDesc:
  assumes "distinct (map fst h)"
  shows "distinct (map fst (queryDesc h))"
proof -
  have "mset (map fst (queryDesc h)) = mset (map fst h)"
    by (simp add: queryDesc_def)
  from mset_eq_imp_distinct_iff [OF this] assms show ?thesis by blast
qed

lemma distinct_addTo:
  assumes "distinct (map fst h)"
  shows "distinct (map fst (addTo k v h))"
  using assms by (auto simp: addTo_def deleteFrom_def distinct_map_filter)

lemma keep_prefix_of_distinct:
  assumes "distinct (map fst ys)"
  shows "filter (\<lambda>d. fst d \<notin> {k \<in> fst ` set (drop n ys). \<not> rej k}) ys
         = take n ys @ filter (\<lambda>d. rej (fst d)) (drop n ys)"
proof -
  have d: "distinct (map fst (take n ys @ drop n ys))" using assms by simp
  have disj: "fst ` set (take n ys) \<inter> fst ` set (drop n ys) = {}"
    using d unfolding map_append distinct_append by simp
  have a: "filter (\<lambda>d. fst d \<notin> {k \<in> fst ` set (drop n ys). \<not> rej k}) (take n ys) = take n ys"
    using disj by (intro filter_True) auto
  have b: "filter (\<lambda>d. fst d \<notin> {k \<in> fst ` set (drop n ys). \<not> rej k}) (drop n ys)
           = filter (\<lambda>d. rej (fst d)) (drop n ys)"
    by (intro filter_cong) auto
  have "filter (\<lambda>d. fst d \<notin> {k \<in> fst ` set (drop n ys). \<not> rej k}) (take n ys @ drop n ys)
        = take n ys @ filter (\<lambda>d. rej (fst d)) (drop n ys)"
    unfolding filter_append a b ..
  then show ?thesis by simp
qed

lemma save_remote:
  assumes "useRemote w uid"
  shows "save uid st now autoId stamp w =
          (if rejects w (AddDoc uid) then (Inl FirestoreError, w)
           else (Inr autoId, setHistory uid (addTo autoId (toDoc st stamp) (history w uid)) w))"
  using assms by (simp add: save_def)

lemma save_local:
  assumes "\<not> useRemote w uid"
  shows "save uid st now autoId stamp w =
          (Inr (''local-'' @ decimal now),
           w\<lparr>ss_studies := Some (localStudies w @ [st\<lparr>study_id := Some (''local-'' @ decimal now)\<rparr>])\<rparr>)"
  using assms by (simp add: save_def Let_def)

lemma enforceLimit_local:
  assumes "\<not> useRemote w uid"
  shows "enforceLimit uid n w =
          (Inr (), if n < length (localStudies w)
                   then w\<lparr>ss_studies := Some (take n (sortDesc createdAt (localStudies w)))\<rparr>
                   else w)"
  using assms by (simp add: enforceLimit_def Let_def)

lemma deleteAll_eq:
  "deleteAll uid ids w =
     (if \<forall>i \<in> set ids. \<not> rejects w (DeleteDoc uid i) then Inr () else Inl FirestoreError,
      setHistory uid
        (filter (\<lambda>d. fst d \<notin> {k \<in> set ids. \<not> rejects w (DeleteDoc uid k)}) (history w uid)) w)"
  by (simp add: deleteAll_def Let_def fold_deleteFrom list_all_iff)

lemma enforceLimit_remote:
  assumes "useRemote w uid" and "\<not> rejects w (QueryHistory uid)"
  shows "enforceLimit uid n w =
          (if n < length (history w uid)
           then deleteAll uid (map fst (drop n (queryDesc (history w uid)))) w
           else (Inr (), w))"
  using assms by (simp add: enforceLimit_def Let_def length_queryDesc)

lemma enforceLimit_rejected:
  assumes "useRemote w uid" and "rejects w (QueryHistory uid)"
  shows "enforceLimit uid n w = (Inl FirestoreError, w)"
  using assms by (simp add: enforceLimit_def)

lemma enforceLimit_idem:
  assumes "distinct (map fst (history w uid))"
  shows "enforceLimit uid n (snd (enforceLimit uid n w)) = enforceLimit uid n w"
proof (cases "useRemote w uid")
  case False
  define w' where "w' = w\<lparr>ss_studies := Some (take n (sortDesc createdAt (localStudies w)))\<rparr>"
  have r: "\<not> useRemote w' uid" using False by (simp add: w'_def useRemote_def)
  have l: "localStudies w' = take n (sortDesc createdAt (localStudies w))"
    by (simp add: w'_def localStudies_def)
  have len: "\<not> n < length (localStudies w')"
    by (simp add: l)
  show ?thesis
  proof (cases "n < length (localStudies w)")
    case True
    then have "enforceLimit uid n w = (Inr (), w')"
      using False by (simp add: enforceLimit_local w'_def)
    moreover have "enforceLimit uid n w' = (Inr (), w')"
      using r len by (simp add: enforceLimit_local)
    ultimately show ?thesis by simp
  next
    case False
    then show ?thesis using \<open>\<not> useRemote w uid\<close> by (simp add: enforceLimit_local)
  qed
next
  case remote: True
  show ?thesis
  proof (cases "rejects w (QueryHistory uid)")
    case True
    then show ?thesis using remote by (simp add: enforceLimit_rejected)
  next
    case accepted: False
    show ?thesis
    proof (cases "n < length (history w uid)")
      case False
      then show ?thesis using remote accepted by (simp add: enforceLimit_remote)
    next
      case long: True
      let ?rej = "\<lambda>k. rejects w (DeleteDoc uid k)"
      define ys where "ys = queryDesc (history w uid)"
      define R where "R = filter (\<lambda>d. ?rej (fst d)) (drop n ys)"
      define h' where
        "h' = filter (\<lambda>d. fst d \<notin> {k \<in> fst ` set (drop n ys). \<not> ?rej k}) (history w uid)"
      define w' where "w' = setHistory uid h' w"
      have len: "n < length ys" using long by (simp add: ys_def length_queryDesc)
      have dys: "distinct (map fst ys)" unfolding ys_def by (rule distinct_queryDesc [OF assms])
      have R_empty: "(\<forall>i \<in> set (map fst (drop n ys)). \<not> ?rej i) \<longleftrightarrow> R = []"
        by (auto simp: R_def filter_empty_conv)
      have first: "enforceLimit uid n w = (if R = [] then Inr () else Inl FirestoreError, w')"
        unfolding enforceLimit_remote [OF remote accepted] deleteAll_eq ys_def [symmetric]
        using long R_empty by (simp add: w'_def h'_def)
      have q': "queryDesc h' = take n ys @ R"
        unfolding h'_def queryDesc_filter ys_def [symmetric] R_def
        by (rule keep_prefix_of_distinct [OF dys])
      have remote': "useRemote w' uid" and rej': "rejects w' = rejects w"
        and hist': "history w' uid = h'"
        using remote by (simp_all add: w'_def setHistory_def useRemote_def)
      have accepted': "\<not> rejects w' (QueryHistory uid)" using accepted rej' by simp
      have len': "length h' = n + length R"
        using len arg_cong [OF q', of length] by (simp add: length_queryDesc)
      have dropR: "drop n (queryDesc h') = R" using len by (simp add: q')
      have none: "{k \<in> set (map fst R). \<not> ?rej k} = {}" by (auto simp: R_def)
      have same: "setHistory uid h' w' = w'" by (simp add: w'_def setHistory_def)
      have allR: "(\<forall>i \<in> set (map fst R). \<not> ?rej i) \<longleftrightarrow> R = []"
      proof (cases R)
        case Nil
        then show ?thesis by simp
      next
        case (Cons d ds)
        have "d \<in> set R" using Cons by simp
        then have "?rej (fst d)" by (simp add: R_def)
        then show ?thesis using Cons by auto
      qed
      have second: "enforceLimit uid n w' = (if R = [] then Inr () else Inl FirestoreError, w')"
      proof (cases "R = []")
        case True
        then show ?thesis
          unfolding enforceLimit_remote [OF remote' accepted'] hist' by (simp add: len')
      next
        case False
        then have "n < length h'" by (simp add: len')
        then have "enforceLimit uid n w' = deleteAll uid (map fst R) w'"
          unfolding enforceLimit_remote [OF remote' accepted'] hist' dropR by simp
        also have "\<dots> = (Inl FirestoreError, w')"
          unfolding deleteAll_eq rej' none hist' using False allR same by simp
        finally show ?thesis using False by simp
      qed
      show ?thesis unfolding first using second by simp
    qed
  qed
qed

lemma enforceLimit_under_cap:
  assumes "length (getAll uid w) \<le> n"
  shows "snd (enforceLimit uid n w) = w"
proof (cases "useRemote w uid")
  case False
  then show ?thesis using assms by (simp add: enforceLimit_local getAll_def)
next
  case True
  show ?thesis
  proof (cases "rejects w (QueryHistory uid)")
    case True
    then show ?thesis using \<open>useRemote w uid\<close> by (simp add: enforceLimit_rejected)
  next
    case False
    then have "length (history w uid) \<le> n"
      using assms True by (simp add: getAll_def length_queryDesc)
    then show ?thesis using True False by (simp add: enforceLimit_remote)
  qed
qed

lemma find_append_last:
  assumes "\<forall>x \<in> set xs. \<not> P x" and "P y"
  shows "find P (xs @ [y]) = Some y"
  using assms by (induction xs) auto

lemma find_addTo: "find (\<lambda>d. fst d = k) (addTo k v h) = Some (k, v)"
  unfolding addTo_def by (rule find_append_last) (auto simp: deleteFrom_def)

lemma find_none: "(\<forall>x \<in> set xs. \<not> P x) \<Longrightarrow> find P xs = None"
  by (induction xs) auto


lemma runTracker_keeps_flag:
  "hasUsedTrial w \<Longrightarrow> hasUsedTrial (runTracker op w)"
  by (cases op) (simp_all add: hasUsedTrial_def markTrialUsed_def setTrialStudyId_def)

lemma fold_runTracker_keeps_flag:
  "hasUsedTrial w \<Longrightarrow> hasUsedTrial (fold runTracker ops w)"
  by (induction ops arbitrary: w) (simp_all add: runTracker_keeps_flag)

lemma scanUsers_eq:
  "scanUsers w us acc =
     (if \<exists>u \<in> set us. rejects w (QueryHistory (fst u)) then Inl FirestoreError
      else Inr (acc @ concat (map (userEntries w) us)))"
  by (induction us arbitrary: acc) auto

lemma startsWith_append:
  assumes "startsWith s p"
  shows "startsWith (s @ t) p" and "drop (length p) (s @ t) = drop (length p) s @ t"
proof -
  have "length (take (length p) s) = length p"
    using assms by (simp add: startsWith_def)
  then have "length p \<le> length s"
    by (simp add: min_def split: if_splits)
  then show "startsWith (s @ t) p" and "drop (length p) (s @ t) = drop (length p) s @ t"
    using assms by (simp_all add: startsWith_def)
qed

lemma startsWith_before_newline:
  assumes "newline \<notin> set p" and "startsWith (s @ newline # r) p"
  shows "startsWith s p"
proof (cases "length p \<le> length s")
  case True
  then show ?thesis using assms(2) by (simp add: startsWith_def)
next
  case False
  then have "p ! length s = newline"
    using assms(2) nth_take [of "length s" "length p" "s @ newline # r"]
    by (simp add: startsWith_def nth_append)
  then have "newline \<in> set p" using False by (metis not_le nth_mem)
  then show ?thesis using assms(1) by simp
qed

lemma dropNewline_append:
  assumes "d \<noteq> []"
  shows "dropNewline (d @ t) = dropNewline d @ t"
  using assms by (cases d) (simp_all add: dropNewline_def)

lemma stripFence_before_newline:
  assumes "newline \<notin> set p"
  shows "stripFence p (x @ newline # r) = stripFence p x @ newline # stripFence p r
       \<or> stripFence p (x @ newline # r) = stripFence p x @ stripFence p r"
  using assms
proof (induction p x rule: stripFence.induct)
  case (1 p)
  then have "\<not> startsWith (newline # r) p \<or> p = []"
    by (cases p) (auto simp: startsWith_def)
  then show ?case by auto
next
  case (2 p c cs)
  show ?case
  proof (cases "p \<noteq> [] \<and> startsWith (c # cs) p")
    case True
    let ?d = "drop (length p) (c # cs)"
    have m: "startsWith ((c # cs) @ newline # r) p"
      and d: "drop (length p) ((c # cs) @ newline # r) = ?d @ newline # r"
      using True startsWith_append by blast+
    have l: "stripFence p ((c # cs) @ newline # r) = stripFence p (dropNewline (?d @ newline # r))"
      using True m d by (metis append_Cons stripFence.simps(2))
    have s: "stripFence p (c # cs) = stripFence p (dropNewline ?d)"
      using True by simp
    show ?thesis
    proof (cases "?d = []")
      case True
      then have "dropNewline (?d @ newline # r) = r" "dropNewline ?d = []"
        by (simp_all add: dropNewline_def)
      then show ?thesis using l s by simp
    next
      case False
      then have "dropNewline (?d @ newline # r) = dropNewline ?d @ newline # r"
        by (rule dropNewline_append)
      then show ?thesis using l s "2.IH"(1) [OF True "2.prems"] by simp
    qed
  next
    case False
    then have "\<not> (p \<noteq> [] \<and> startsWith ((c # cs) @ newline # r) p)"
      using startsWith_before_newline [OF "2.prems"] by blast
    then have "stripFence p ((c # cs) @ newline # r) = c # stripFence p (cs @ newline # r)"
      by auto
    moreover have "stripFence p (c # cs) = c # stripFence p cs" using False by auto
    ultimately show ?thesis using "2.IH"(2) [OF False "2.prems"] by auto
  qed
qed

lemma stripFence_fence_append:
  "stripFence fence (y @ fence) = stripFence fence y"
proof (induction "fence" y rule: stripFence.induct)
  case 1
  show ?case by (simp add: fence_def startsWith_def dropNewline_def)
next
  case (2 c cs)
  have ne: "fence \<noteq> []" by (simp add: fence_def)
  show ?case
  proof (cases "startsWith (c # cs) fence")
    case True
    let ?d = "drop (length fence) (c # cs)"
    have m: "startsWith ((c # cs) @ fence) fence"
      and d: "drop (length fence) ((c # cs) @ fence) = ?d @ fence"
      using True startsWith_append by blast+
    have l: "stripFence fence ((c # cs) @ fence) = stripFence fence (dropNewline (?d @ fence))"
      using ne m d by (metis append_Cons stripFence.simps(2))
    have s: "stripFence fence (c # cs) = stripFence fence (dropNewline ?d)"
      using True ne by simp
    show ?thesis
    proof (cases "?d = []")
      case True
      have "stripFence fence (dropNewline fence) = []"
        by (simp add: fence_def startsWith_def dropNewline_def newline_def)
      moreover have "dropNewline ?d = []" using True by (simp add: dropNewline_def)
      ultimately show ?thesis using l s True by simp
    next
      case False
      then have "dropNewline (?d @ fence) = dropNewline ?d @ fence"
        by (rule dropNewline_append)
      then show ?thesis using l s "2.hyps"(1) True ne by simp
    qed
  next
    case False
    show ?thesis
    proof (cases "startsWith ((c # cs) @ fence) fence")
      case no: False
      then have "stripFence fence ((c # cs) @ fence) = c # stripFence fence (cs @ fence)"
        by auto
      moreover have "stripFence fence (c # cs) = c # stripFence fence cs" using False by auto
      ultimately show ?thesis using "2.hyps"(2) False by auto
    next
      case True
      have short: "length (c # cs) < 3"
      proof (rule ccontr)
        assume "\<not> length (c # cs) < 3"
        then have "take (length fence) ((c # cs) @ fence) = take (length fence) (c # cs)"
          by (simp add: fence_def)
        then show False using True False by (simp add: startsWith_def)
      qed
      then consider (one) "cs = []" | (two) d where "cs = [d]"
        by (cases cs; cases "tl cs") auto
      then have same: "dropNewline (drop (length fence) ((c # cs) @ fence)) = c # cs"
        using True by cases (auto simp: fence_def startsWith_def dropNewline_def newline_def)
      have "stripFence fence ((c # cs) @ fence)
            = stripFence fence (dropNewline (drop (length fence) ((c # cs) @ fence)))"
        using True ne by (metis append_Cons stripFence.simps(2))
      then show ?thesis using same by simp
    qed
  qed
qed

lemma trim_append_newline: "trim (y @ [newline]) = trim y"
proof (cases "\<forall>c \<in> set y. isSpace c")
  case True
  moreover have sp: "isSpace newline" by (simp add: isSpace_def newline_def)
  ultimately have e: "dropWhile isSpace (y @ [newline]) = []" "dropWhile isSpace y = []"
    unfolding dropWhile_eq_Nil_conv by auto
  show ?thesis unfolding trim_def e ..
next
  case False
  have sp: "isSpace newline" by (simp add: isSpace_def newline_def)
  from False have e: "dropWhile isSpace (y @ [newline]) = dropWhile isSpace y @ [newline]"
    by (auto simp: dropWhile_append1)
  show ?thesis unfolding trim_def e using sp by simp
qed

lemma cleanText_fenced: "cleanText (fenced x) = cleanText x"
proof -
  have nlJ: "newline \<notin> set fenceJson" and nlF: "newline \<notin> set fence"
    by (simp_all add: fenceJson_def fence_def newline_def)
  have open_: "stripFence fenceJson (fenced x) = stripFence fenceJson (x @ newline # fence)"
    by (simp add: fenced_def fenceJson_def startsWith_def dropNewline_def)
  have sJF: "stripFence fenceJson fence = fence"
    by (simp add: fenceJson_def fence_def startsWith_def)
  have sFF: "stripFence fence fence = []"
    by (simp add: fence_def startsWith_def dropNewline_def)
  let ?y = "stripFence fenceJson x"
  from stripFence_before_newline [OF nlJ, of x fence]
  consider "stripFence fenceJson (x @ newline # fence) = ?y @ newline # fence"
    | "stripFence fenceJson (x @ newline # fence) = ?y @ fence"
    by (auto simp: sJF)
  then have "trim (stripFence fence (stripFence fenceJson (x @ newline # fence)))
             = trim (stripFence fence ?y)"
  proof cases
    case 1
    from stripFence_before_newline [OF nlF, of ?y fence]
    have "stripFence fence (?y @ newline # fence) = stripFence fence ?y @ [newline]
        \<or> stripFence fence (?y @ newline # fence) = stripFence fence ?y"
      by (simp add: sFF)
    then show ?thesis unfolding 1 by (auto simp: trim_append_newline)
  next
    case 2
    show ?thesis unfolding 2 by (simp add: stripFence_fence_append)
  qed
  then show ?thesis by (simp add: cleanText_def open_)
qed

lemma sortDesc_newest_first: "sorted (map (\<lambda>x. - key x) (sortDesc key xs))"
  by (simp add: sortDesc_def)

lemma mset_sortDesc: "mset (sortDesc key xs) = mset xs"
  by (simp add: sortDesc_def)

lemma newest_first_take_drop:
  fixes key :: "'a \<Rightarrow> int"
  assumes "sorted (map (\<lambda>x. - key x) L)"
  shows "\<forall>x \<in> set (take n L). \<forall>y \<in> set (drop n L). key y \<le> key x"
proof -
  have "sorted (map (\<lambda>x. - key x) (take n L) @ map (\<lambda>x. - key x) (drop n L))"
    using assms by (metis append_take_drop_id map_append)
  then show ?thesis by (auto simp: sorted_append)
qed

lemma mset_minus_take: "mset L - mset (take n L) = mset (drop n L)"
proof -
  have "mset L = mset (take n L) + mset (drop n L)"
    by (metis append_take_drop_id mset_append)
  then show ?thesis by simp
qed

lemma kept_are_newest:
  fixes key :: "'a \<Rightarrow> int"
  assumes "sorted (map (\<lambda>x. - key x) L)" and "mset before = mset L"
  shows "length (take n L) = min n (length before)
       \<and> mset (take n L) \<subseteq># mset before
       \<and> (\<forall>x \<in> set (take n L). \<forall>y \<in># mset before - mset (take n L). key y \<le> key x)"
proof -
  have len: "length L = length before" using assms(2) by (metis size_mset)
  have sub: "mset (take n L) \<subseteq># mset L"
    by (metis append_take_drop_id mset_append mset_subset_eq_add_left)
  show ?thesis
    using newest_first_take_drop [OF assms(1), of n] sub
    by (simp add: assms(2) mset_minus_take len min.commute)
qed

lemma newest_kept:
  fixes key :: "'a \<Rightarrow> int"
  assumes "kept = take n (sortDesc key before) \<or> (length before \<le> n \<and> kept = before)"
  shows "length kept \<le> n
       \<and> length kept = min n (length before)
       \<and> mset kept \<subseteq># mset before
       \<and> (\<forall>x \<in> set kept. \<forall>y \<in># mset before - mset kept. key y \<le> key x)
       \<and> mset kept = mset (take n (sortDesc key before))"
  using assms
proof
  assume k: "kept = take n (sortDesc key before)"
  from kept_are_newest [OF sortDesc_newest_first, of before key before n]
  show ?thesis by (simp add: k mset_sortDesc)
next
  assume "length before \<le> n \<and> kept = before"
  then show ?thesis by (simp add: sortDesc_def)
qed

lemma serverStamped_queryDesc: "serverStamped (queryDesc h) = serverStamped h"
  by (simp add: serverStamped_def queryDesc_def list_all_iff)

lemma serverStamped_addTo:
  assumes "serverStamped h"
  shows "serverStamped (addTo k (toDoc st (Stamp s n)) h)"
  using assms by (simp add: serverStamped_def addTo_def deleteFrom_def toDoc_def list_all_iff)

lemma serverStamped_filter: "serverStamped h \<Longrightarrow> serverStamped (filter P h)"
  by (simp add: serverStamped_def list_all_iff)

lemma listing_newest_first:
  assumes "serverStamped h"
  shows "sorted (map (\<lambda>x. - createdAt x) (map fromDoc (queryDesc h)))"
proof -
  let ?ys = "queryDesc h"
  have s: "sorted_wrt (\<lambda>a b. desc_key (createdAt (snd a)) \<le> desc_key (createdAt (snd b))) ?ys"
    using sorted_sort_key [of "\<lambda>d. desc_key (createdAt (snd d))" h]
    by (simp add: queryDesc_def sorted_map)
  have st: "serverStamped ?ys" using assms by (simp add: serverStamped_queryDesc)
  have "sorted_wrt (\<lambda>a b. - createdAt (fromDoc a) \<le> - createdAt (fromDoc b)) ?ys"
  proof (rule sorted_wrt_mono_rel [OF _ s])
    fix a b assume a: "a \<in> set ?ys" and b: "b \<in> set ?ys"
      and le: "desc_key (createdAt (snd a)) \<le> desc_key (createdAt (snd b))"
    have "\<exists>s n. createdAt (snd a) = Stamp s n"
      using st a by (cases "createdAt (snd a)") (auto simp: serverStamped_def list_all_iff)
    then obtain sa na where ca: "createdAt (snd a) = Stamp sa na" by blast
    have "\<exists>s n. createdAt (snd b) = Stamp s n"
      using st b by (cases "createdAt (snd b)") (auto simp: serverStamped_def list_all_iff)
    then obtain sb nb where cb: "createdAt (snd b) = Stamp sb nb" by blast
    have "sb \<le> sa" using le by (auto simp: ca cb less_eq_prod_def)
    then show "- createdAt (fromDoc a) \<le> - createdAt (fromDoc b)"
      by (simp add: fromDoc_def ca cb)
  qed
  then show ?thesis by (simp add: sorted_map)
qed

lemma replaceFirst_keeps:
  assumes "list_all Q xs" and "\<And>x. Q x \<Longrightarrow> Q (f x)" and "replaceFirst P f xs = Some ys"
  shows "list_all Q ys"
  using assms by (induction xs arbitrary: ys) (auto split: if_splits option.splits)

lemma serverStamped_invariant:
  assumes "\<forall>u. serverStamped (history w u)"
  shows "\<forall>u. serverStamped (history (snd (save uid st now autoId (Stamp s n) w)) u)"
    and "\<forall>u. serverStamped (history (snd (remove uid i w)) u)"
    and "\<forall>u. serverStamped (history (snd (clearAll uid w)) u)"
    and "\<forall>u. serverStamped (history (snd (enforceLimit uid limit w)) u)"
    and "patch_createdAt data = None \<Longrightarrow> \<forall>u. serverStamped (history (snd (update uid i data w)) u)"
proof -
  show "\<forall>u. serverStamped (history (snd (save uid st now autoId (Stamp s n) w)) u)"
    using assms by (simp add: save_def setHistory_def serverStamped_addTo Let_def)
  show "\<forall>u. serverStamped (history (snd (remove uid i w)) u)"
    using assms by (simp add: remove_def setHistory_def deleteFrom_def serverStamped_filter Let_def)
  have del: "\<forall>u. serverStamped (history (snd (deleteAll uid ids w)) u)" for ids
    using assms by (simp add: deleteAll_eq setHistory_def serverStamped_filter)
  show "\<forall>u. serverStamped (history (snd (clearAll uid w)) u)"
    using assms del by (simp add: clearAll_def)
  show "\<forall>u. serverStamped (history (snd (enforceLimit uid limit w)) u)"
    using assms del by (simp add: enforceLimit_def Let_def)
  show "\<forall>u. serverStamped (history (snd (update uid i data w)) u)"
    if none: "patch_createdAt data = None"
  proof -
    let ?Q = "\<lambda>d :: string \<times> StoredDoc. case createdAt (snd d) of Stamp s n \<Rightarrow> True | Num m \<Rightarrow> False"
    have keep: "?Q (fst d, mergePatch Num (snd d) data)" if "?Q d" for d
      using that none by (simp add: mergePatch_def)
    have "serverStamped docs"
      if r: "replaceFirst (\<lambda>d. fst d = i) (\<lambda>d. (fst d, mergePatch Num (snd d) data)) (history w uid) = Some docs"
      for docs
    proof -
      have "list_all ?Q (history w uid)" using assms by (simp add: serverStamped_def)
      then have "list_all ?Q docs"
        using keep r by (rule replaceFirst_keeps [where Q = ?Q])
      then show ?thesis by (simp add: serverStamped_def)
    qed
    then show ?thesis
      using assms by (auto simp: update_def setHistory_def split: option.splits)
  qed
qed

lemma decimal_7: "decimal 7 = ''7''" by (simp add: decimal.simps)

section \<open>The properties\<close>

subsection \<open>C1\<close>

text \<open>
  Claim C1. A successful \<open>save\<close> followed by a successful \<open>enforceLimit\<close> with cap \<open>n\<close>
  leaves at most \<open>n\<close> studies for the identity (as \<open>getAll\<close> lists them before and
  after): as many as there were, up to \<open>n\<close>, all of them studies that were there, and
  every study kept has a \<open>createdAt\<close> at least as late as every study dropped. They are
  the records of the listing sorted by \<open>createdAt\<close> descending and cut to \<open>n\<close>: with the
  remote store the listing after is exactly that list, the first \<open>n\<close> of the store's own
  listing; with the local list the stored list is exactly that list when the cap was
  exceeded, and is left in its stored order (same records) otherwise. Assumed of the remote
  collection: its document ids are unique and its documents carry server timestamps, as
  every document written by \<open>save\<close> does (\<open>serverStamped_invariant\<close>).
\<close>

theorem save_then_enforceLimit:
  assumes wf: "distinct (map fst (history w uid))"
    and stamped: "serverStamped (history w uid)"
    and sv: "save uid st now autoId (Stamp secs nanos) w = (Inr i, w1)"
    and en: "enforceLimit uid n w1 = (Inr (), w2)"
  shows "length (getAll uid w2) \<le> n
       \<and> length (getAll uid w2) = min n (length (getAll uid w1))
       \<and> mset (getAll uid w2) \<subseteq># mset (getAll uid w1)
       \<and> (\<forall>x \<in> set (getAll uid w2). \<forall>y \<in># mset (getAll uid w1) - mset (getAll uid w2).
             createdAt y \<le> createdAt x)
       \<and> mset (getAll uid w2) = mset (take n (sortDesc createdAt (getAll uid w1)))
       \<and> (useRemote w uid \<longrightarrow>
             getAll uid w2 = take n (getAll uid w1)
           \<and> getAll uid w2 = take n (sortDesc createdAt (getAll uid w1)))
       \<and> (\<not> useRemote w uid \<longrightarrow> n < length (getAll uid w1) \<longrightarrow>
               getAll uid w2 = take n (sortDesc createdAt (getAll uid w1)))"
proof (cases "useRemote w uid")
  case False
  have w1: "w1 = w\<lparr>ss_studies := Some (localStudies w @ [st\<lparr>study_id := Some (''local-'' @ decimal now)\<rparr>])\<rparr>"
    using sv unfolding save_local [OF False] by auto
  have r1: "\<not> useRemote w1 uid" using False by (simp add: w1 useRemote_def)
  have g1: "getAll uid w1 = localStudies w1" using r1 by (simp add: getAll_def)
  have w2: "w2 = (if n < length (localStudies w1)
                  then w1\<lparr>ss_studies := Some (take n (sortDesc createdAt (localStudies w1)))\<rparr>
                  else w1)"
    using en unfolding enforceLimit_local [OF r1] by simp
  have r2: "\<not> useRemote w2 uid" using r1 by (simp add: w2 useRemote_def)
  have g2: "getAll uid w2 = (if n < length (localStudies w1)
                  then take n (sortDesc createdAt (localStudies w1)) else localStudies w1)"
    using r2 by (simp add: getAll_def w2 localStudies_def)
  have "getAll uid w2 = take n (sortDesc createdAt (getAll uid w1))
      \<or> (length (getAll uid w1) \<le> n \<and> getAll uid w2 = getAll uid w1)"
    by (simp add: g1 g2)
  note nk = newest_kept [OF this]
  have over: "n < length (getAll uid w1) \<longrightarrow>
      getAll uid w2 = take n (sortDesc createdAt (getAll uid w1))"
    by (simp add: g1 g2)
  show ?thesis using nk over False by blast
next
  case remote: True
  have acc: "\<not> rejects w (AddDoc uid)"
    and w1: "w1 = setHistory uid (addTo autoId (toDoc st (Stamp secs nanos)) (history w uid)) w"
    using sv unfolding save_remote [OF remote] by (auto split: if_splits)
  define h1 where "h1 = addTo autoId (toDoc st (Stamp secs nanos)) (history w uid)"
  define ys where "ys = queryDesc h1"
  have d1: "distinct (map fst h1)" unfolding h1_def by (rule distinct_addTo [OF wf])
  have dys: "distinct (map fst ys)" unfolding ys_def by (rule distinct_queryDesc [OF d1])
  have s1: "serverStamped h1" unfolding h1_def by (rule serverStamped_addTo [OF stamped])
  have r1: "useRemote w1 uid" and hist1: "history w1 uid = h1"
    using remote by (simp_all add: w1 h1_def setHistory_def useRemote_def)
  have q1: "\<not> rejects w1 (QueryHistory uid)"
    using en r1 by (auto simp: enforceLimit_def)
  have g1: "getAll uid w1 = map fromDoc ys"
    using r1 q1 by (simp add: getAll_def hist1 ys_def)
  have "sorted (map (\<lambda>x. - createdAt x) (getAll uid w1))"
    unfolding g1 ys_def by (rule listing_newest_first [OF s1])
  then have same: "sortDesc createdAt (getAll uid w1) = getAll uid w1"
    unfolding sortDesc_def by (rule sort_key_id_if_sorted)
  have g2: "getAll uid w2 = take n (getAll uid w1)"
  proof (cases "n < length h1")
    case False
    then have "w2 = w1" using en unfolding enforceLimit_remote [OF r1 q1] hist1 by simp
    then show ?thesis using False by (simp add: g1 ys_def length_queryDesc)
  next
    case True
    have del: "deleteAll uid (map fst (drop n ys)) w1 = (Inr (), w2)"
      using en True unfolding enforceLimit_remote [OF r1 q1] hist1 ys_def by simp
    have all: "\<forall>k \<in> set (map fst (drop n ys)). \<not> rejects w1 (DeleteDoc uid k)"
      using del unfolding deleteAll_eq by (auto split: if_splits)
    then have ks: "{k \<in> set (map fst (drop n ys)). \<not> rejects w1 (DeleteDoc uid k)}
                   = {k \<in> fst ` set (drop n ys). \<not> False}"
      by auto
    have w2: "w2 = setHistory uid
                (filter (\<lambda>d. fst d \<notin> {k \<in> fst ` set (drop n ys). \<not> False}) h1) w1"
      using del unfolding deleteAll_eq ks hist1 by simp
    have h2: "history w2 uid = filter (\<lambda>d. fst d \<notin> {k \<in> fst ` set (drop n ys). \<not> False}) h1"
      by (simp add: w2 setHistory_def)
    have "queryDesc (history w2 uid) = take n ys @ filter (\<lambda>d. False) (drop n ys)"
      unfolding h2 queryDesc_filter ys_def [symmetric]
      by (rule keep_prefix_of_distinct [OF dys])
    then have q2: "queryDesc (history w2 uid) = take n ys" by simp
    have r2: "useRemote w2 uid" "\<not> rejects w2 (QueryHistory uid)"
      using r1 q1 by (simp_all add: w2 setHistory_def useRemote_def)
    have "getAll uid w2 = map fromDoc (take n ys)"
      using r2 by (simp add: getAll_def q2)
    then show ?thesis by (simp add: g1 take_map)
  qed
  have "getAll uid w2 = take n (sortDesc createdAt (getAll uid w1))
      \<or> (length (getAll uid w1) \<le> n \<and> getAll uid w2 = getAll uid w1)"
    by (simp add: g2 same)
  note nk = newest_kept [OF this]
  have "getAll uid w2 = take n (sortDesc createdAt (getAll uid w1))"
    by (simp add: g2 same)
  then show ?thesis using nk g2 remote by blast
qed

text \<open>
  The theorem at work on a local list and on a remote collection of three studies that
  are not stored in the order of their time, a fourth being saved and the cap being 2.
\<close>

theorem save_then_enforceLimit_witness:
  "distinct (map fst (history threeLocal ''guest''))
 \<and> serverStamped (history threeLocal ''guest'')
 \<and> fst (save ''guest'' (sampleStudy None 25) 7 [] (Stamp 0 0) threeLocal) = Inr ''local-7''
 \<and> fst (enforceLimit ''guest'' 2 (snd (save ''guest'' (sampleStudy None 25) 7 [] (Stamp 0 0) threeLocal))) = Inr ()
 \<and> map createdAt (getAll ''guest'' (snd (save ''guest'' (sampleStudy None 25) 7 [] (Stamp 0 0) threeLocal)))
     = [10, 30, 20, 25]
 \<and> map createdAt (getAll ''guest'' (snd (enforceLimit ''guest'' 2
        (snd (save ''guest'' (sampleStudy None 25) 7 [] (Stamp 0 0) threeLocal))))) = [30, 25]
 \<and> length (getAll ''guest'' (snd (enforceLimit ''guest'' 2
        (snd (save ''guest'' (sampleStudy None 25) 7 [] (Stamp 0 0) threeLocal))))) \<le> 2
 \<and> distinct (map fst (history threeRemote ''u1''))
 \<and> serverStamped (history threeRemote ''u1'')
 \<and> fst (save ''u1'' (sampleStudy None 25) 7 ''docD'' (Stamp 25 0) threeRemote) = Inr ''docD''
 \<and> fst (enforceLimit ''u1'' 2 (snd (save ''u1'' (sampleStudy None 25) 7 ''docD'' (Stamp 25 0) threeRemote))) = Inr ()
 \<and> map (\<lambda>s. (study_id s, createdAt s))
       (getAll ''u1'' (snd (save ''u1'' (sampleStudy None 25) 7 ''docD'' (Stamp 25 0) threeRemote)))
     = [(Some ''docC'', 30000), (Some ''docD'', 25000), (Some ''docB'', 20000), (Some ''docA'', 10000)]
 \<and> map (\<lambda>s. (study_id s, createdAt s)) (getAll ''u1'' (snd (enforceLimit ''u1'' 2
        (snd (save ''u1'' (sampleStudy None 25) 7 ''docD'' (Stamp 25 0) threeRemote)))))
     = [(Some ''docC'', 30000), (Some ''docD'', 25000)]
 \<and> length (getAll ''u1'' (snd (enforceLimit ''u1'' 2
        (snd (save ''u1'' (sampleStudy None 25) 7 ''docD'' (Stamp 25 0) threeRemote))))) \<le> 2"
proof -
  let ?s = "save ''guest'' (sampleStudy None 25) 7 [] (Stamp 0 0) threeLocal"
  let ?e = "enforceLimit ''guest'' 2 (snd ?s)"
  have h1: "distinct (map fst (history threeLocal ''guest''))"
    and h1': "serverStamped (history threeLocal ''guest'')"
    by (simp_all add: threeLocal_def offline_def serverStamped_def)
  have h2: "?s = (Inr ''local-7'', snd ?s)"
    by (simp add: save_def useRemote_def Let_def decimal_7)
  have h3: "?e = (Inr (), snd ?e)"
    by (simp add: enforceLimit_def save_def useRemote_def Let_def)
  note loc = save_then_enforceLimit [OF h1 h1' h2 h3]
  let ?t = "save ''u1'' (sampleStudy None 25) 7 ''docD'' (Stamp 25 0) threeRemote"
  let ?f = "enforceLimit ''u1'' 2 (snd ?t)"
  have k1: "distinct (map fst (history threeRemote ''u1''))"
    and k1': "serverStamped (history threeRemote ''u1'')"
    by (simp_all add: threeRemote_def online_def offline_def serverStamped_def toDoc_def)
  have k2: "?t = (Inr ''docD'', snd ?t)"
    by (simp add: save_def useRemote_def threeRemote_def online_def offline_def)
  have k3: "?f = (Inr (), snd ?f)"
    by (simp add: enforceLimit_def deleteAll_def Let_def save_def useRemote_def threeRemote_def
        online_def offline_def setHistory_def list_all_iff)
  note rem = save_then_enforceLimit [OF k1 k1' k2 k3]
  have l0: "map createdAt (getAll ''guest'' (snd ?s)) = [10, 30, 20, 25]"
    by (simp add: getAll_def save_def useRemote_def Let_def localStudies_def threeLocal_def
        offline_def sampleStudy_def)
  have l: "map createdAt (getAll ''guest'' (snd ?e)) = [30, 25]"
    by (simp add: getAll_def enforceLimit_def save_def useRemote_def Let_def localStudies_def
        threeLocal_def offline_def sampleStudy_def sortDesc_def)
  have r0: "map (\<lambda>s. (study_id s, createdAt s)) (getAll ''u1'' (snd ?t))
     = [(Some ''docC'', 30000), (Some ''docD'', 25000), (Some ''docB'', 20000), (Some ''docA'', 10000)]"
    by (simp add: getAll_def save_def useRemote_def Let_def
        threeRemote_def online_def offline_def setHistory_def addTo_def deleteFrom_def
        queryDesc_def toDoc_def fromDoc_def sampleStudy_def)
  have r: "map (\<lambda>s. (study_id s, createdAt s)) (getAll ''u1'' (snd ?f))
     = [(Some ''docC'', 30000), (Some ''docD'', 25000)]"
    by (simp add: getAll_def enforceLimit_def deleteAll_def save_def useRemote_def Let_def
        threeRemote_def online_def offline_def setHistory_def addTo_def deleteFrom_def
        queryDesc_def toDoc_def fromDoc_def sampleStudy_def)
  have c: "fst ?s = Inr ''local-7''" "fst ?e = Inr ()" "fst ?t = Inr ''docD''" "fst ?f = Inr ()"
    by (simp_all add: h2 [THEN arg_cong, of fst] h3 [THEN arg_cong, of fst]
        k2 [THEN arg_cong, of fst] k3 [THEN arg_cong, of fst])
  show ?thesis using conjunct1 [OF loc] conjunct1 [OF rem] h1 h1' k1 k1' c l0 l r0 r by blast
qed

subsection \<open>C2\<close>

text \<open>
  Claim C2, as amended. The admin scan is all or nothing. When the store rejects the
  listing of the users or the sub-query of any one user (or is not configured), the result
  is the empty list, whatever the other users hold; nothing is ever thrown to the caller
  (the result is a list). When nothing is rejected the result is every user's studies,
  newest first.
\<close>

theorem getAllStudies_all_or_nothing:
  "(\<not> configured w \<or> rejects w ListUsers \<or> (\<exists>u \<in> set (users w). rejects w (QueryHistory (fst u)))
      \<longrightarrow> getAllStudies w = [])
 \<and> (configured w \<and> \<not> rejects w ListUsers \<and> (\<forall>u \<in> set (users w). \<not> rejects w (QueryHistory (fst u)))
      \<longrightarrow> getAllStudies w
            = sortDesc (\<lambda>e. createdAt (study e)) (concat (map (userEntries w) (users w))))"
  by (auto simp: getAllStudies_def scanAll_def scanUsers_eq)

text \<open>
  The theorem on two users, with no request rejected and with the listing of users
  rejected.
\<close>

theorem getAllStudies_all_or_nothing_witness:
  "configured twoUsers \<and> \<not> rejects twoUsers ListUsers
 \<and> list_all (\<lambda>u. \<not> rejects twoUsers (QueryHistory (fst u))) (users twoUsers)
 \<and> map (\<lambda>e. (study_id (study e), userEmail e, userName e)) (getAllStudies twoUsers)
     = [(Some ''Ab3dE'', ''Unknown'', ''Bea'')]
 \<and> rejects (twoUsers\<lparr>rejects := (\<lambda>r. r = ListUsers)\<rparr>) ListUsers
 \<and> getAllStudies (twoUsers\<lparr>rejects := (\<lambda>r. r = ListUsers)\<rparr>) = []"
proof -
  let ?down = "twoUsers\<lparr>rejects := (\<lambda>r. r = ListUsers)\<rparr>"
  have a: "configured twoUsers" "\<not> rejects twoUsers ListUsers"
    "\<forall>u \<in> set (users twoUsers). \<not> rejects twoUsers (QueryHistory (fst u))"
    by (simp_all add: twoUsers_def online_def offline_def)
  have b: "rejects ?down ListUsers" by simp
  from getAllStudies_all_or_nothing [of twoUsers] a
  have "getAllStudies twoUsers
        = sortDesc (\<lambda>e. createdAt (study e)) (concat (map (userEntries twoUsers) (users twoUsers)))"
    by blast
  then have ok: "map (\<lambda>e. (study_id (study e), userEmail e, userName e)) (getAllStudies twoUsers)
     = [(Some ''Ab3dE'', ''Unknown'', ''Bea'')]"
    by (simp add: twoUsers_def online_def offline_def userEntries_def queryDesc_def sortDesc_def
        fromDoc_def toDoc_def sampleStudy_def orDefault_def)
  from getAllStudies_all_or_nothing [of ?down] b
  have e: "getAllStudies ?down = []" by blast
  show ?thesis using a b ok e by (simp add: list_all_iff)
qed

text \<open>
  Claim C2 as first stated fails: with the sub-query of user \<open>u1\<close> rejected, the study
  of user \<open>u2\<close>, which the scan returns otherwise, is not returned.
\<close>

theorem getAllStudies_partial_failure_counterexample:
  "map (\<lambda>e. (study_id (study e), userName e)) (getAllStudies twoUsers) = [(Some ''Ab3dE'', ''Bea'')]
   \<and> \<not> rejects (twoUsers\<lparr>rejects := (\<lambda>r. r = QueryHistory ''u1'')\<rparr>) (QueryHistory ''u2'')
   \<and> map fst (history (twoUsers\<lparr>rejects := (\<lambda>r. r = QueryHistory ''u1'')\<rparr>) ''u2'') = [''Ab3dE'']
   \<and> getAllStudies (twoUsers\<lparr>rejects := (\<lambda>r. r = QueryHistory ''u1'')\<rparr>) = []"
  by (simp add: getAllStudies_def scanAll_def twoUsers_def online_def offline_def
      userEntries_def queryDesc_def sortDesc_def fromDoc_def toDoc_def sampleStudy_def
      orDefault_def)

subsection \<open>C3\<close>

text \<open>
  Claim C3. \<open>enforceLimit\<close> is idempotent: run again with the same cap on the state it
  left, it returns the same result and leaves that state as it is. And when the identity
  has at most \<open>n\<close> studies, \<open>enforceLimit\<close> with cap \<open>n\<close> changes nothing.
\<close>

theorem enforceLimit_idempotent:
  assumes "distinct (map fst (history w uid))"
  shows "enforceLimit uid n (snd (enforceLimit uid n w)) = enforceLimit uid n w
       \<and> (length (getAll uid w) \<le> n \<longrightarrow> snd (enforceLimit uid n w) = w)"
  using enforceLimit_idem [OF assms] enforceLimit_under_cap by blast

text \<open>
  The theorem on a remote collection of three studies, with caps 2 and 3.
\<close>

theorem enforceLimit_idempotent_witness:
  "distinct (map fst (history threeRemote ''u1''))
 \<and> map fst (history (snd (enforceLimit ''u1'' 2 threeRemote)) ''u1'') = [''docC'', ''docB'']
 \<and> enforceLimit ''u1'' 2 (snd (enforceLimit ''u1'' 2 threeRemote)) = enforceLimit ''u1'' 2 threeRemote
 \<and> length (getAll ''u1'' threeRemote) \<le> 3
 \<and> snd (enforceLimit ''u1'' 3 threeRemote) = threeRemote"
proof -
  have d: "distinct (map fst (history threeRemote ''u1''))"
    by (simp add: threeRemote_def online_def offline_def)
  have l: "length (getAll ''u1'' threeRemote) \<le> 3"
    by (simp add: getAll_def length_queryDesc threeRemote_def online_def offline_def useRemote_def)
  have e: "map fst (history (snd (enforceLimit ''u1'' 2 threeRemote)) ''u1'') = [''docC'', ''docB'']"
    by (simp add: enforceLimit_def deleteAll_def Let_def useRemote_def threeRemote_def
        online_def offline_def setHistory_def deleteFrom_def queryDesc_def toDoc_def)
  from enforceLimit_idempotent [OF d, of 2] enforceLimit_idempotent [OF d, of 3] l
  have "enforceLimit ''u1'' 2 (snd (enforceLimit ''u1'' 2 threeRemote)) = enforceLimit ''u1'' 2 threeRemote"
    and "snd (enforceLimit ''u1'' 3 threeRemote) = threeRemote"
    by blast+
  then show ?thesis using d l e by blast
qed

subsection \<open>C4\<close>

text \<open>
  Claim C4, as amended. Local route (no remote store, or the guest identity): when no
  stored record carries the id that \<open>save\<close> mints, \<open>getById\<close> with the returned id yields
  the saved study with that id. Remote route: when the store accepts the write and the
  read and the study has no id of its own, \<open>getById\<close> with the returned id yields the
  saved study with that id and with \<open>createdAt\<close> set from the server's timestamp (its
  seconds times 1000), not the \<open>createdAt\<close> that was passed in.
\<close>

theorem save_getById_roundtrip:
  "(\<not> useRemote w uid \<and> (\<forall>s \<in> set (localStudies w). study_id s \<noteq> Some (''local-'' @ decimal now))
      \<longrightarrow> fst (save uid st now autoId stamp w) = Inr (''local-'' @ decimal now)
        \<and> getById uid (''local-'' @ decimal now) (snd (save uid st now autoId stamp w))
            = Some (st\<lparr>study_id := Some (''local-'' @ decimal now)\<rparr>))
 \<and> (useRemote w uid \<and> \<not> rejects w (AddDoc uid) \<and> \<not> rejects w (GetDoc uid autoId)
      \<and> \<not> startsWith autoId ''local-'' \<and> study_id st = None
      \<longrightarrow> fst (save uid st now autoId stamp w) = Inr autoId
        \<and> getById uid autoId (snd (save uid st now autoId stamp w))
            = Some (st\<lparr>study_id := Some autoId, createdAt := createdAtMillis stamp\<rparr>))"
proof (intro conjI impI)
  assume a: "\<not> useRemote w uid \<and> (\<forall>s \<in> set (localStudies w). study_id s \<noteq> Some (''local-'' @ decimal now))"
  let ?i = "''local-'' @ decimal now"
  let ?w1 = "w\<lparr>ss_studies := Some (localStudies w @ [st\<lparr>study_id := Some ?i\<rparr>])\<rparr>"
  have sv: "save uid st now autoId stamp w = (Inr ?i, ?w1)"
    using a by (simp add: save_local)
  show "fst (save uid st now autoId stamp w) = Inr ?i" by (simp add: sv)
  have route: "\<not> useRemoteFor ?w1 uid ?i" by (simp add: useRemoteFor_def startsWith_def)
  have "find (\<lambda>s. study_id s = Some ?i) (localStudies w @ [st\<lparr>study_id := Some ?i\<rparr>])
        = Some (st\<lparr>study_id := Some ?i\<rparr>)"
    using a by (intro find_append_last) auto
  then show "getById uid ?i (snd (save uid st now autoId stamp w)) = Some (st\<lparr>study_id := Some ?i\<rparr>)"
    unfolding sv using route by (simp add: getById_def localStudies_def)
next
  assume a: "useRemote w uid \<and> \<not> rejects w (AddDoc uid) \<and> \<not> rejects w (GetDoc uid autoId)
      \<and> \<not> startsWith autoId ''local-'' \<and> study_id st = None"
  let ?w1 = "setHistory uid (addTo autoId (toDoc st stamp) (history w uid)) w"
  have sv: "save uid st now autoId stamp w = (Inr autoId, ?w1)"
    using a by (simp add: save_remote)
  show "fst (save uid st now autoId stamp w) = Inr autoId" by (simp add: sv)
  have route: "useRemoteFor ?w1 uid autoId \<and> \<not> rejects ?w1 (GetDoc uid autoId)"
    using a by (simp add: useRemoteFor_def useRemote_def setHistory_def)
  have "fromDoc (autoId, toDoc st stamp) = st\<lparr>study_id := Some autoId, createdAt := createdAtMillis stamp\<rparr>"
    using a by (simp add: fromDoc_def toDoc_def)
  then show "getById uid autoId (snd (save uid st now autoId stamp w))
            = Some (st\<lparr>study_id := Some autoId, createdAt := createdAtMillis stamp\<rparr>)"
    unfolding sv using route by (simp add: getById_def find_addTo setHistory_def)
qed

text \<open>
  The theorem on a local list and on a remote collection.
\<close>

theorem save_getById_roundtrip_witness:
  "\<not> useRemote oneLocal ''guest''
 \<and> list_all (\<lambda>s. study_id s \<noteq> Some ''local-7'') (localStudies oneLocal)
 \<and> getById ''guest'' ''local-7'' (snd (save ''guest'' (sampleStudy None 25) 7 [] (Stamp 0 0) oneLocal))
     = Some (sampleStudy (Some ''local-7'') 25)
 \<and> useRemote threeRemote ''u1''
 \<and> \<not> startsWith ''docD'' ''local-''
 \<and> getById ''u1'' ''docD'' (snd (save ''u1'' (sampleStudy None 25) 7 ''docD'' (Stamp 26 5) threeRemote))
     = Some (sampleStudy (Some ''docD'') 26000)"
proof -
  have a1: "\<not> useRemote oneLocal ''guest''" by (simp add: useRemote_def)
  have a2: "\<forall>s \<in> set (localStudies oneLocal). study_id s \<noteq> Some (''local-'' @ decimal 7)"
    by (simp add: localStudies_def oneLocal_def offline_def sampleStudy_def decimal_7)
  have b1: "useRemote threeRemote ''u1''"
    by (simp add: useRemote_def threeRemote_def online_def offline_def)
  have b2: "\<not> rejects threeRemote (AddDoc ''u1'')" "\<not> rejects threeRemote (GetDoc ''u1'' ''docD'')"
    by (simp_all add: threeRemote_def online_def offline_def)
  have b3: "\<not> startsWith ''docD'' ''local-''" by (simp add: startsWith_def)
  have b4: "study_id (sampleStudy None 25) = None" by (simp add: sampleStudy_def)
  note rt = save_getById_roundtrip [of oneLocal "''guest''" 7 "sampleStudy None 25" "[]" "Stamp 0 0"]
    save_getById_roundtrip [of threeRemote "''u1''" 7 "sampleStudy None 25" "''docD''" "Stamp 26 5"]
  have "getById ''guest'' ''local-7'' (snd (save ''guest'' (sampleStudy None 25) 7 [] (Stamp 0 0) oneLocal))
     = Some ((sampleStudy None 25)\<lparr>study_id := Some ''local-7''\<rparr>)"
    using rt(1) a1 a2 by (simp add: decimal_7)
  moreover have "getById ''u1'' ''docD'' (snd (save ''u1'' (sampleStudy None 25) 7 ''docD'' (Stamp 26 5) threeRemote))
     = Some ((sampleStudy None 25)\<lparr>study_id := Some ''docD'', createdAt := createdAtMillis (Stamp 26 5)\<rparr>)"
    using rt(2) b1 b2 b3 b4 by blast
  ultimately show ?thesis using a1 a2 b1 b3
    by (simp add: sampleStudy_def list_all_iff decimal_7)
qed

text \<open>
  Claim C4 as first stated fails. Remote: the study saved with \<open>createdAt\<close>
  1700000000123 is read back with 1700000000000. Local: a second save within the same
  millisecond mints an id that is already stored, and \<open>getById\<close> finds the older record.
\<close>

theorem save_getById_counterexample:
  "fst (save ''u1'' (sampleStudy None 1700000000123) 1700000000123 ''Ab3dE''
            (Stamp 1700000000 123000000) online) = Inr ''Ab3dE''
 \<and> map_option createdAt (getById ''u1'' ''Ab3dE''
        (snd (save ''u1'' (sampleStudy None 1700000000123) 1700000000123 ''Ab3dE''
                (Stamp 1700000000 123000000) online))) = Some 1700000000000
 \<and> getById ''u1'' ''Ab3dE''
        (snd (save ''u1'' (sampleStudy None 1700000000123) 1700000000123 ''Ab3dE''
                (Stamp 1700000000 123000000) online))
       \<noteq> Some (sampleStudy (Some ''Ab3dE'') 1700000000123)
 \<and> fst (save ''guest'' (sampleStudy None 25) 7 [] (Stamp 0 0) tickLocal) = Inr ''local-7''
 \<and> getById ''guest'' ''local-7'' (snd (save ''guest'' (sampleStudy None 25) 7 [] (Stamp 0 0) tickLocal))
       = Some (sampleStudy (Some ''local-7'') 10)"
  by (simp add: save_def getById_def useRemote_def useRemoteFor_def online_def offline_def
      tickLocal_def setHistory_def addTo_def deleteFrom_def startsWith_def fromDoc_def toDoc_def
      sampleStudy_def localStudies_def decimal_7 Let_def)

subsection \<open>C5\<close>




subsection \<open>C6\<close>

text \<open>
  Claim C6, as amended. \<open>getById\<close> never throws (it returns a study or nothing).
  On the local route \<open>remove\<close> never throws and \<open>getById\<close> afterwards finds nothing. On
  the remote route \<open>remove\<close> throws exactly when the store rejects the delete, leaving
  the state as it was; when the store accepts it and no local record carries the id,
  \<open>getById\<close> afterwards finds nothing.
\<close>

theorem remove_then_getById:
  "(\<not> useRemoteFor w uid i \<longrightarrow>
      fst (remove uid i w) = Inr () \<and> getById uid i (snd (remove uid i w)) = None)
 \<and> (useRemoteFor w uid i \<and> \<not> rejects w (DeleteDoc uid i)
      \<and> (\<forall>s \<in> set (localStudies w). study_id s \<noteq> Some i) \<longrightarrow>
      fst (remove uid i w) = Inr () \<and> getById uid i (snd (remove uid i w)) = None)
 \<and> (useRemoteFor w uid i \<and> rejects w (DeleteDoc uid i) \<longrightarrow>
      remove uid i w = (Inl FirestoreError, w))"
proof (intro conjI impI)
  assume a: "\<not> useRemoteFor w uid i"
  let ?w1 = "w\<lparr>ss_studies := Some (filter (\<lambda>s. study_id s \<noteq> Some i) (localStudies w))\<rparr>"
  have r: "remove uid i w = (Inr (), ?w1)" using a by (simp add: remove_def)
  show "fst (remove uid i w) = Inr ()" by (simp add: r)
  have "\<not> useRemoteFor ?w1 uid i" using a by (simp add: useRemoteFor_def)
  moreover have "find (\<lambda>s. study_id s = Some i) (localStudies ?w1) = None"
    by (rule find_none) (simp add: localStudies_def)
  ultimately show "getById uid i (snd (remove uid i w)) = None"
    unfolding r by (simp add: getById_def)
next
  assume a: "useRemoteFor w uid i \<and> \<not> rejects w (DeleteDoc uid i)
      \<and> (\<forall>s \<in> set (localStudies w). study_id s \<noteq> Some i)"
  let ?w1 = "setHistory uid (deleteFrom i (history w uid)) w"
  have r: "remove uid i w = (Inr (), ?w1)" using a by (simp add: remove_def)
  show "fst (remove uid i w) = Inr ()" by (simp add: r)
  have "find (\<lambda>d. fst d = i) (history ?w1 uid) = None"
    by (rule find_none) (simp add: setHistory_def deleteFrom_def)
  moreover have "find (\<lambda>s. study_id s = Some i) (localStudies ?w1) = None"
    using a by (intro find_none) (simp add: localStudies_def setHistory_def)
  ultimately show "getById uid i (snd (remove uid i w)) = None"
    unfolding r by (simp add: getById_def)
next
  assume "useRemoteFor w uid i \<and> rejects w (DeleteDoc uid i)"
  then show "remove uid i w = (Inl FirestoreError, w)" by (simp add: remove_def)
qed

text \<open>
  The theorem on a local list, on a remote collection, and on a store that rejects the
  delete.
\<close>

theorem remove_then_getById_witness:
  "\<not> useRemoteFor oneLocal ''guest'' ''local-1''
 \<and> getById ''guest'' ''local-1'' (snd (remove ''guest'' ''local-1'' oneLocal)) = None
 \<and> useRemoteFor threeRemote ''u1'' ''docC''
 \<and> getById ''u1'' ''docC'' threeRemote \<noteq> None
 \<and> getById ''u1'' ''docC'' (snd (remove ''u1'' ''docC'' threeRemote)) = None
 \<and> remove ''u1'' ''docC'' (threeRemote\<lparr>rejects := (\<lambda>r. r = DeleteDoc ''u1'' ''docC'')\<rparr>)
     = (Inl FirestoreError, threeRemote\<lparr>rejects := (\<lambda>r. r = DeleteDoc ''u1'' ''docC'')\<rparr>)"
proof -
  let ?down = "threeRemote\<lparr>rejects := (\<lambda>r. r = DeleteDoc ''u1'' ''docC'')\<rparr>"
  have a: "\<not> useRemoteFor oneLocal ''guest'' ''local-1''" by (simp add: useRemoteFor_def)
  have b: "useRemoteFor threeRemote ''u1'' ''docC''" "\<not> rejects threeRemote (DeleteDoc ''u1'' ''docC'')"
    "\<forall>s \<in> set (localStudies threeRemote). study_id s \<noteq> Some ''docC''"
    by (simp_all add: useRemoteFor_def threeRemote_def online_def offline_def startsWith_def
        localStudies_def)
  have c: "useRemoteFor ?down ''u1'' ''docC''" "rejects ?down (DeleteDoc ''u1'' ''docC'')"
    by (simp_all add: useRemoteFor_def threeRemote_def online_def offline_def startsWith_def)
  have before: "getById ''u1'' ''docC'' threeRemote \<noteq> None"
    by (simp add: getById_def useRemoteFor_def threeRemote_def online_def offline_def
        startsWith_def)
  from remove_then_getById [of oneLocal "''guest''" "''local-1''"] a
  have l: "getById ''guest'' ''local-1'' (snd (remove ''guest'' ''local-1'' oneLocal)) = None"
    by blast
  from remove_then_getById [of threeRemote "''u1''" "''docC''"] b
  have r: "getById ''u1'' ''docC'' (snd (remove ''u1'' ''docC'' threeRemote)) = None"
    by blast
  from remove_then_getById [of ?down "''u1''" "''docC''"] c
  have e: "remove ''u1'' ''docC'' ?down = (Inl FirestoreError, ?down)"
    by blast
  show ?thesis using a b(1) before l r e by blast
qed

text \<open>
  Claim C6 as first stated fails: \<open>remove\<close> throws when the store rejects the delete;
  and after a remote delete \<open>getById\<close> falls back to the local list, where a record of
  that id is found.
\<close>

theorem remove_then_getById_counterexample:
  "fst (remove ''u1'' ''Ab3dE'' (online\<lparr>rejects := (\<lambda>r. r = DeleteDoc ''u1'' ''Ab3dE'')\<rparr>))
     = Inl FirestoreError
   \<and> fst (remove ''u1'' ''Ab3dE'' strayLocal) = Inr ()
   \<and> getById ''u1'' ''Ab3dE'' (snd (remove ''u1'' ''Ab3dE'' strayLocal))
       = Some (sampleStudy (Some ''Ab3dE'') 1)"
  by (simp add: remove_def getById_def useRemoteFor_def strayLocal_def online_def offline_def
      startsWith_def setHistory_def deleteFrom_def localStudies_def sampleStudy_def)

subsection \<open>C7\<close>

text \<open>
  Claim C7. After \<open>markTrialUsed\<close>, \<open>hasUsedTrial\<close> holds after any sequence of
  operations of the tracker. And when nobody is signed in and the trial is used,
  \<open>handleAnalyze\<close> stops with the sign-in dialogue (or, on a blank reference, at once) and
  leaves the state, with its log of generation requests, as it was; a call of
  \<open>generateStudy\<close> would have added to that log.
\<close>

theorem guest_trial_gate:
  "hasUsedTrial (fold runTracker ops (markTrialUsed w))
 \<and> (hasUsedTrial w \<longrightarrow>
       handleAnalyze parse None ref tr created now autoId stamp w
         = (if trim ref = [] then Ignored else SignInModal, w))
 \<and> ai_calls (snd (generateStudy parse ref tr w)) = ai_calls w @ [(ref, tr)]"
proof (intro conjI impI)
  have "hasUsedTrial (markTrialUsed w)" by (simp add: hasUsedTrial_def markTrialUsed_def)
  then show "hasUsedTrial (fold runTracker ops (markTrialUsed w))"
    by (rule fold_runTracker_keeps_flag)
next
  assume "hasUsedTrial w"
  then show "handleAnalyze parse None ref tr created now autoId stamp w
         = (if trim ref = [] then Ignored else SignInModal, w)"
    by (simp add: handleAnalyze_def)
next
  show "ai_calls (snd (generateStudy parse ref tr w)) = ai_calls w @ [(ref, tr)]"
    by (simp add: generateStudy_def Let_def split: ai_reply.splits)
qed

text \<open>
  The theorem on a browser whose trial is used.
\<close>

theorem guest_trial_gate_witness:
  "hasUsedTrial (fold runTracker [SetTrialStudyId ''local-7'', GetTrialStudyId, HasUsedTrial]
       (markTrialUsed offline))
 \<and> hasUsedTrial (markTrialUsed offline)
 \<and> handleAnalyze exampleParse None ''John 3:16'' ''ESV'' 25 7 [] (Stamp 0 0) (markTrialUsed offline)
     = (SignInModal, markTrialUsed offline)
 \<and> ai_calls (snd (handleAnalyze exampleParse None ''John 3:16'' ''ESV'' 25 7 [] (Stamp 0 0)
       (markTrialUsed offline))) = []"
proof -
  have u: "hasUsedTrial (markTrialUsed offline)"
    by (simp add: hasUsedTrial_def markTrialUsed_def)
  have t: "trim ''John 3:16'' \<noteq> []" by (simp add: trim_def isSpace_def)
  note g = guest_trial_gate [of "[SetTrialStudyId ''local-7'', GetTrialStudyId, HasUsedTrial]"
      offline exampleParse "''John 3:16''" "''ESV''" 25 7 "[]" "Stamp 0 0"]
    guest_trial_gate [of "[]" "markTrialUsed offline" exampleParse "''John 3:16''" "''ESV''" 25 7 "[]" "Stamp 0 0"]
  have h: "handleAnalyze exampleParse None ''John 3:16'' ''ESV'' 25 7 [] (Stamp 0 0) (markTrialUsed offline)
     = (SignInModal, markTrialUsed offline)"
    using g(2) u t by simp
  have "ai_calls (markTrialUsed offline) = []" by (simp add: markTrialUsed_def offline_def)
  then show ?thesis using g(1) u h by simp
qed

subsection \<open>C8\<close>

text \<open>
  Claim C8. A reply that wraps a text in a fenced block tagged \<^verbatim>\<open>json\<close> cleans, and
  so parses, to the same as the text itself (for every text, valid JSON or not; for an
  empty text the unwrapped reply is first replaced by \<^verbatim>\<open>{}\<close>). And when the cleaned
  reply does not parse, \<open>generateStudy\<close> fails with its own error (\<^verbatim>\<open>Could not parse
  study analysis\<close>), handed to the caller.
\<close>

theorem fenced_reply_parses_alike:
  "parse (cleanText (fenced x)) = parse (cleanText x)
 \<and> (x \<noteq> [] \<longrightarrow> parseReply parse (Some (fenced x)) = parseReply parse (Some x))
 \<and> (gemini w ref tr = Reply t \<and> parse (cleanText (orDefault t ''{}'')) = None \<longrightarrow>
      generateStudy parse ref tr w
        = (Inl (GenerationError ''Could not parse study analysis. Please try again.''),
           w\<lparr>ai_calls := ai_calls w @ [(ref, tr)]\<rparr>))"
proof (intro conjI impI)
  show "parse (cleanText (fenced x)) = parse (cleanText x)"
    by (simp add: cleanText_fenced)
next
  assume "x \<noteq> []"
  moreover have "fenced x \<noteq> []" by (simp add: fenced_def fenceJson_def)
  ultimately show "parseReply parse (Some (fenced x)) = parseReply parse (Some x)"
    by (simp add: parseReply_def orDefault_def cleanText_fenced)
next
  assume "gemini w ref tr = Reply t \<and> parse (cleanText (orDefault t ''{}'')) = None"
  then show "generateStudy parse ref tr w
        = (Inl (GenerationError ''Could not parse study analysis. Please try again.''),
           w\<lparr>ai_calls := ai_calls w @ [(ref, tr)]\<rparr>)"
    by (simp add: generateStudy_def parseReply_def Let_def)
qed

text \<open>
  The theorem on the reply \<^verbatim>\<open>{}\<close>, fenced and bare, and on a reply that is no JSON.
\<close>

theorem fenced_reply_parses_alike_witness:
  "cleanText (fenced ''{}'') = ''{}''
 \<and> parseReply exampleParse (Some (fenced ''{}'')) = Inr sampleAnalysis
 \<and> parseReply exampleParse (Some ''{}'') = Inr sampleAnalysis
 \<and> gemini declining ''John 3:16'' ''ESV'' = Reply (Some ''I cannot help'')
 \<and> exampleParse (cleanText ''I cannot help'') = None
 \<and> fst (generateStudy exampleParse ''John 3:16'' ''ESV'' declining)
     = Inl (GenerationError ''Could not parse study analysis. Please try again.'')"
proof -
  note f = fenced_reply_parses_alike [of exampleParse "''{}''" declining "''John 3:16''" "''ESV''"
      "Some ''I cannot help''"]
  have c: "cleanText ''{}'' = ''{}''"
    by (simp add: cleanText_def trim_def isSpace_def fence_def fenceJson_def startsWith_def)
  have c': "cleanText (fenced ''{}'') = ''{}''"
    by (simp add: cleanText_def fenced_def trim_def isSpace_def fence_def fenceJson_def
        startsWith_def dropNewline_def newline_def)
  have p: "parseReply exampleParse (Some ''{}'') = Inr sampleAnalysis"
    by (simp add: parseReply_def orDefault_def c exampleParse_def)
  have g: "gemini declining ''John 3:16'' ''ESV'' = Reply (Some ''I cannot help'')"
    by (simp add: declining_def)
  have s: "cleanText ''I cannot help'' = ''I cannot help''"
    by (simp add: cleanText_def trim_def isSpace_def fence_def fenceJson_def startsWith_def)
  have n: "exampleParse (cleanText (orDefault (Some ''I cannot help'') ''{}'')) = None"
    by (simp add: orDefault_def s exampleParse_def)
  have "parseReply exampleParse (Some (fenced ''{}'')) = parseReply exampleParse (Some ''{}'')"
    using f by simp
  moreover have "generateStudy exampleParse ''John 3:16'' ''ESV'' declining
        = (Inl (GenerationError ''Could not parse study analysis. Please try again.''),
           declining\<lparr>ai_calls := ai_calls declining @ [(''John 3:16'', ''ESV'')]\<rparr>)"
    using f g n by blast
  ultimately show ?thesis using c' p g n by (simp add: orDefault_def)
qed

subsection \<open>C9\<close>

text \<open>
  Claim C9. On the local route, \<open>update\<close> with an id that no stored record has
  completes without error and leaves the state, the stored list included, unchanged.
\<close>

theorem update_local_missing_noop:
  assumes "\<not> useRemoteFor w uid i"
    and "\<forall>s \<in> set (localStudies w). study_id s \<noteq> Some i"
  shows "update uid i data w = (Inr (), w)"
proof -
  have "replaceFirst P f xs = None" if "\<forall>x \<in> set xs. \<not> P x" for P f and xs :: "SavedStudy list"
    using that by (induction xs) auto
  with assms show ?thesis by (simp add: update_def)
qed

text \<open>
  The theorem on a list of one study; with the id of that study the notes are
  updated.
\<close>

theorem update_local_missing_noop_witness:
  "\<not> useRemoteFor oneLocal ''guest'' ''local-2''
 \<and> list_all (\<lambda>s. study_id s \<noteq> Some ''local-2'') (localStudies oneLocal)
 \<and> update ''guest'' ''local-2'' (notesPatch ''my notes'') oneLocal = (Inr (), oneLocal)
 \<and> map userNotes (localStudies (snd (update ''guest'' ''local-1'' (notesPatch ''my notes'') oneLocal)))
     = [''my notes'']"
proof -
  have a: "\<not> useRemoteFor oneLocal ''guest'' ''local-2''" by (simp add: useRemoteFor_def)
  have b: "\<forall>s \<in> set (localStudies oneLocal). study_id s \<noteq> Some ''local-2''"
    by (simp add: localStudies_def oneLocal_def offline_def sampleStudy_def)
  have c: "map userNotes (localStudies (snd (update ''guest'' ''local-1'' (notesPatch ''my notes'') oneLocal)))
     = [''my notes'']"
    by (simp add: update_def useRemoteFor_def localStudies_def oneLocal_def offline_def
        sampleStudy_def mergePatch_def notesPatch_def orElse_def)
  from update_local_missing_noop [OF a b]
  have "update ''guest'' ''local-2'' (notesPatch ''my notes'') oneLocal = (Inr (), oneLocal)" .
  then show ?thesis using a b c by (simp add: list_all_iff)
qed

subsection \<open>C10\<close>

text \<open>
  Claim C10. On the local route \<open>save\<close> returns a fresh id of the form
  \<^verbatim>\<open>local-<time>\<close>; the stored list afterwards is the old list followed by the study with
  that id: it is one longer, every record stored before is at its old position,
  unchanged, and the new study is last. Nothing else of the state changes.
\<close>

theorem save_local_appends:
  assumes "\<not> useRemote w uid"
  shows "fst (save uid st now autoId stamp w) = Inr (''local-'' @ decimal now)
       \<and> localStudies (snd (save uid st now autoId stamp w))
           = localStudies w @ [st\<lparr>study_id := Some (''local-'' @ decimal now)\<rparr>]
       \<and> snd (save uid st now autoId stamp w)
           = w\<lparr>ss_studies := Some (localStudies (snd (save uid st now autoId stamp w)))\<rparr>
       \<and> length (localStudies (snd (save uid st now autoId stamp w))) = Suc (length (localStudies w))
       \<and> take (length (localStudies w)) (localStudies (snd (save uid st now autoId stamp w)))
           = localStudies w
       \<and> (\<forall>k < length (localStudies w).
             localStudies (snd (save uid st now autoId stamp w)) ! k = localStudies w ! k)
       \<and> last (localStudies (snd (save uid st now autoId stamp w)))
           = st\<lparr>study_id := Some (''local-'' @ decimal now)\<rparr>"
proof -
  have l: "localStudies (snd (save uid st now autoId stamp w))
           = localStudies w @ [st\<lparr>study_id := Some (''local-'' @ decimal now)\<rparr>]"
    using assms by (simp add: save_def Let_def localStudies_def)
  have "fst (save uid st now autoId stamp w) = Inr (''local-'' @ decimal now)"
    and "snd (save uid st now autoId stamp w)
           = w\<lparr>ss_studies := Some (localStudies (snd (save uid st now autoId stamp w)))\<rparr>"
    using assms by (simp_all add: save_def Let_def localStudies_def)
  then show ?thesis unfolding l by (simp add: nth_append)
qed

text \<open>
  The theorem on a browser that holds three studies (one with notes), the trial flags and
  a configured remote store with documents of another user, for the guest identity; and
  on a browser without remote store for a signed-in identity.
\<close>

theorem save_local_appends_witness:
  "\<not> useRemote busyBrowser ''guest''
 \<and> configured busyBrowser
 \<and> fst (save ''guest'' (sampleStudy None 7) 42 ''x'' (Stamp 1 0) busyBrowser) = Inr ''local-42''
 \<and> localStudies (snd (save ''guest'' (sampleStudy None 7) 42 ''x'' (Stamp 1 0) busyBrowser))
     = [sampleStudy (Some ''local-1'') 10, sampleStudy (Some ''local-3'') 30,
        (sampleStudy (Some ''local-2'') 20)\<lparr>userNotes := ''read again''\<rparr>,
        sampleStudy (Some ''local-42'') 7]
 \<and> take 3 (localStudies (snd (save ''guest'' (sampleStudy None 7) 42 ''x'' (Stamp 1 0) busyBrowser)))
     = localStudies busyBrowser
 \<and> ss_guest_trial_used (snd (save ''guest'' (sampleStudy None 7) 42 ''x'' (Stamp 1 0) busyBrowser))
     = Some ''true''
 \<and> ss_guest_trial_study_id (snd (save ''guest'' (sampleStudy None 7) 42 ''x'' (Stamp 1 0) busyBrowser))
     = Some ''local-1''
 \<and> map fst (history (snd (save ''guest'' (sampleStudy None 7) 42 ''x'' (Stamp 1 0) busyBrowser)) ''u1'')
     = [''docA'', ''docC'', ''docB'']
 \<and> \<not> useRemote threeLocal ''u1''
 \<and> map study_id (localStudies (snd (save ''u1'' (sampleStudy None 7) 42 ''x'' (Stamp 1 0) threeLocal)))
     = [Some ''local-1'', Some ''local-3'', Some ''local-2'', Some ''local-42'']"
proof -
  let ?s = "save ''guest'' (sampleStudy None 7) 42 ''x'' (Stamp 1 0) busyBrowser"
  let ?t = "save ''u1'' (sampleStudy None 7) 42 ''x'' (Stamp 1 0) threeLocal"
  have h: "\<not> useRemote busyBrowser ''guest''" by (simp add: useRemote_def)
  have h': "\<not> useRemote threeLocal ''u1''"
    by (simp add: useRemote_def threeLocal_def offline_def)
  have c: "configured busyBrowser"
    by (simp add: busyBrowser_def threeRemote_def online_def offline_def)
  have d: "decimal 42 = ''42''" by (simp add: decimal.simps)
  have l: "localStudies busyBrowser
     = [sampleStudy (Some ''local-1'') 10, sampleStudy (Some ''local-3'') 30,
        (sampleStudy (Some ''local-2'') 20)\<lparr>userNotes := ''read again''\<rparr>]"
    by (simp add: localStudies_def busyBrowser_def)
  have l': "map study_id (localStudies threeLocal) = [Some ''local-1'', Some ''local-3'', Some ''local-2'']"
    by (simp add: localStudies_def threeLocal_def sampleStudy_def)
  have n: "(sampleStudy None 7)\<lparr>study_id := Some ''local-42''\<rparr> = sampleStudy (Some ''local-42'') 7"
    by (simp add: sampleStudy_def)
  note a = save_local_appends [OF h, of "sampleStudy None 7" 42 "''x''" "Stamp 1 0"]
  note b = save_local_appends [OF h', of "sampleStudy None 7" 42 "''x''" "Stamp 1 0"]
  have a1: "fst ?s = Inr ''local-42''" using a by (simp add: d)
  have a2: "localStudies (snd ?s)
     = [sampleStudy (Some ''local-1'') 10, sampleStudy (Some ''local-3'') 30,
        (sampleStudy (Some ''local-2'') 20)\<lparr>userNotes := ''read again''\<rparr>,
        sampleStudy (Some ''local-42'') 7]"
    using a by (simp add: d l n)
  have a3: "take 3 (localStudies (snd ?s)) = localStudies busyBrowser"
    using a by (simp add: l)
  have a4: "snd ?s = busyBrowser\<lparr>ss_studies := Some (localStudies (snd ?s))\<rparr>"
    using a by blast
  have a5: "ss_guest_trial_used (snd ?s) = Some ''true''"
    "ss_guest_trial_study_id (snd ?s) = Some ''local-1''"
    "map fst (history (snd ?s) ''u1'') = [''docA'', ''docC'', ''docB'']"
    by (subst a4, simp add: busyBrowser_def threeRemote_def)+
  have b1: "map study_id (localStudies (snd ?t))
     = [Some ''local-1'', Some ''local-3'', Some ''local-2'', Some ''local-42'']"
    using b by (simp add: d l')
  show ?thesis using h h' c a1 a2 a3 a5 b1 by blast
qed

end
